theory Spec2Isabelle
  imports Complex_Main
begin

section \<open>Data model\<close>

text \<open>
  The script \<^verbatim>\<open>etl_ev_population.py\<close> reads a CSV file with \<^verbatim>\<open>dtype=str\<close>: every cell is
  a string or missing (pandas NaN).  A nullable cell is an \<open>option\<close>, \<open>None\<close> being NaN.
  The raw table is a list of rows in file order; the field names of \<open>raw_row\<close> stand for
  the seventeen source column names.
\<close>

record raw_row =
  VIN_1_10 :: "string option"
  County :: "string option"
  City :: "string option"
  State :: "string option"
  Postal_Code :: "string option"
  Model_Year :: "string option"
  Make :: "string option"
  Model :: "string option"
  Electric_Vehicle_Type :: "string option"
  CAFV_Eligibility :: "string option"
  Electric_Range :: "string option"
  Base_MSRP :: "string option"
  Legislative_District :: "string option"
  DOL_Vehicle_ID :: "string option"
  Vehicle_Location :: "string option"
  Electric_Utility :: "string option"
  Census_Tract_2020 :: "string option"

text \<open>
  A float64 cell that is not NaN: a finite value or one of the two infinities.  A finite
  value is kept as the exact rational it denotes; the rounding and the overflow of
  binary64 arithmetic are outside the model.
\<close>

datatype fl = NInf | Fin rat | PInf

text \<open>
  The table after the renaming and the three casts (lines 29 to 52).  The record field
  \<open>make'\<close> is the column \<^verbatim>\<open>make\<close>.
\<close>

record row =
  vin :: "string option"
  county :: "string option"
  city :: "string option"
  state :: "string option"
  postal_code :: "string option"
  model_year :: int
  make' :: "string option"
  model :: "string option"
  ev_type :: "string option"
  cafv_eligibility :: "string option"
  electric_range :: "fl option"
  base_msrp :: "fl option"
  legislative_district :: "string option"
  dol_vehicle_id :: "string option"
  vehicle_location :: "string option"
  electric_utility :: "string option"
  census_tract :: "string option"

text \<open>The table once the two derived columns of line 73 exist.\<close>

record geo_row = row +
  latitude :: "string option"
  longitude :: "string option"

datatype error = ValueError | OverflowError

section \<open>Field Normalizer: the casts of lines 50 to 52\<close>

text \<open>
  \<^verbatim>\<open>astype(float)\<close> and \<^verbatim>\<open>astype(int)\<close> on a column of Python strings call \<^verbatim>\<open>float(s)\<close>
  and \<^verbatim>\<open>int(s)\<close> on every cell.  Both first check the underscores of the literal (each one
  between two digits), drop white space at both ends and read an optional sign.  Strings
  are ASCII here: the non-ASCII digits and spaces that Python also accepts are not
  modelled.
\<close>

definition is_digit :: "char \<Rightarrow> bool" where
  "is_digit c \<longleftrightarrow> c \<in> set ''0123456789''"

definition digit_val :: "char \<Rightarrow> nat" where
  "digit_val c = of_char c - 48"

definition is_space :: "char \<Rightarrow> bool" where
  "is_space c \<longleftrightarrow> c \<in> set [CHR '' '', CHR 0x09, CHR 0x0A, CHR 0x0B, CHR 0x0C, CHR 0x0D]"

fun strip_underscores :: "char \<Rightarrow> string \<Rightarrow> string option" where
  "strip_underscores prev [] = (if prev = CHR ''_'' then None else Some [])"
| "strip_underscores prev (c # cs) =
     (if c = CHR ''_'' then (if is_digit prev then strip_underscores c cs else None)
      else if prev = CHR ''_'' \<and> \<not> is_digit c then None
      else map_option ((#) c) (strip_underscores c cs))"

definition strip :: "string \<Rightarrow> string" where
  "strip s = rev (dropWhile is_space (rev (dropWhile is_space s)))"

definition parse_sign :: "string \<Rightarrow> bool \<times> string" where
  "parse_sign s =
     (case s of
        c # cs \<Rightarrow> if c = CHR ''-'' then (True, cs) else if c = CHR ''+'' then (False, cs) else (False, s)
      | [] \<Rightarrow> (False, s))"

definition digits_to_nat :: "string \<Rightarrow> nat" where
  "digits_to_nat ds = foldl (\<lambda>a c. 10 * a + digit_val c) 0 ds"

definition lower :: "char \<Rightarrow> char" where
  "lower c = (case map_of (zip ''ABCDEFGHIJKLMNOPQRSTUVWXYZ'' ''abcdefghijklmnopqrstuvwxyz'') c of
                None \<Rightarrow> c | Some d \<Rightarrow> d)"

text \<open>The exponent part: empty, or \<^verbatim>\<open>e\<close>/\<^verbatim>\<open>E\<close>, an optional sign and at least one digit.\<close>

definition parse_exponent :: "string \<Rightarrow> int option" where
  "parse_exponent s =
     (case s of
        [] \<Rightarrow> Some 0
      | c # cs \<Rightarrow>
          if c = CHR ''e'' \<or> c = CHR ''E'' then
            (case parse_sign cs of
               (neg, ds) \<Rightarrow>
                 if ds \<noteq> [] \<and> list_all is_digit ds
                 then Some (if neg then - int (digits_to_nat ds) else int (digits_to_nat ds))
                 else None)
          else None)"

definition scale10 :: "nat \<Rightarrow> int \<Rightarrow> rat" where
  "scale10 m e = (if 0 \<le> e then of_nat m * 10 ^ nat e else of_nat m / 10 ^ nat (- e))"

text \<open>A decimal literal: digits, an optional point with digits, an optional exponent.\<close>

definition parse_decimal :: "string \<Rightarrow> rat option" where
  "parse_decimal s =
     (let ip = takeWhile is_digit s; r1 = dropWhile is_digit s;
          fp = (case r1 of c # cs \<Rightarrow> if c = CHR ''.'' then takeWhile is_digit cs else [] | [] \<Rightarrow> []);
          r2 = (case r1 of c # cs \<Rightarrow> if c = CHR ''.'' then dropWhile is_digit cs else r1 | [] \<Rightarrow> [])
      in if ip = [] \<and> fp = [] then None
         else (case parse_exponent r2 of
                 None \<Rightarrow> None
               | Some e \<Rightarrow> Some (scale10 (digits_to_nat (ip @ fp)) (e - int (length fp)))))"

text \<open>\<^verbatim>\<open>float(s)\<close>: \<open>Inr None\<close> is NaN, \<open>Inl ValueError\<close> the exception of a malformed literal.\<close>

definition to_float :: "string \<Rightarrow> error + fl option" where
  "to_float s =
     (case strip_underscores (CHR 0x00) s of
        None \<Rightarrow> Inl ValueError
      | Some u \<Rightarrow>
          (case parse_sign (strip u) of
             (neg, body) \<Rightarrow>
               if map lower body = ''inf'' \<or> map lower body = ''infinity''
               then Inr (Some (if neg then NInf else PInf))
               else if map lower body = ''nan'' then Inr None
               else (case parse_decimal body of
                       None \<Rightarrow> Inl ValueError
                     | Some q \<Rightarrow> Inr (Some (Fin (if neg then - q else q))))))"

text \<open>
  \<^verbatim>\<open>int(s)\<close> stored into an int64 column: a value outside the 64-bit range raises
  OverflowError.
\<close>

definition to_int :: "string \<Rightarrow> error + int" where
  "to_int s =
     (case strip_underscores (CHR 0x00) s of
        None \<Rightarrow> Inl ValueError
      | Some u \<Rightarrow>
          (case parse_sign (strip u) of
             (neg, body) \<Rightarrow>
               if body \<noteq> [] \<and> list_all is_digit body then
                 (let v = (if neg then - int (digits_to_nat body) else int (digits_to_nat body))
                  in if - (2 ^ 63) \<le> v \<and> v < 2 ^ 63 then Inr v else Inl OverflowError)
               else Inl ValueError))"

text \<open>A missing cell casts to NaN as a float and cannot be cast to an integer.\<close>

definition cell_to_float :: "string option \<Rightarrow> error + fl option" where
  "cell_to_float v = (case v of None \<Rightarrow> Inr None | Some s \<Rightarrow> to_float s)"

definition cell_to_int :: "string option \<Rightarrow> error + int" where
  "cell_to_int v = (case v of None \<Rightarrow> Inl ValueError | Some s \<Rightarrow> to_int s)"

text \<open>A cast of a whole column raises at the first cell that fails.\<close>

fun astype :: "('a \<Rightarrow> error + 'b) \<Rightarrow> 'a list \<Rightarrow> error + 'b list" where
  "astype f [] = Inr []"
| "astype f (x # xs) =
     (case f x of
        Inl e \<Rightarrow> Inl e
      | Inr y \<Rightarrow> (case astype f xs of Inl e \<Rightarrow> Inl e | Inr ys \<Rightarrow> Inr (y # ys)))"

text \<open>Line 19: only the rows of the jurisdiction are kept, in their order.\<close>

definition filter_state :: "raw_row list \<Rightarrow> raw_row list" where
  "filter_state t = filter (\<lambda>r. State r = Some ''WA'') t"

text \<open>Lines 29 to 46 rename the columns; the three typed cells come from the casts.\<close>

definition rename :: "raw_row \<Rightarrow> fl option \<Rightarrow> fl option \<Rightarrow> int \<Rightarrow> row" where
  "rename r er bm my =
     \<lparr> vin = VIN_1_10 r, county = County r, city = City r, state = State r,
       postal_code = Postal_Code r, model_year = my, make' = Make r, model = Model r,
       ev_type = Electric_Vehicle_Type r, cafv_eligibility = CAFV_Eligibility r,
       electric_range = er, base_msrp = bm,
       legislative_district = Legislative_District r, dol_vehicle_id = DOL_Vehicle_ID r,
       vehicle_location = Vehicle_Location r, electric_utility = Electric_Utility r,
       census_tract = Census_Tract_2020 r \<rparr>"

definition normalize :: "raw_row list \<Rightarrow> error + row list" where
  "normalize t =
     (case astype cell_to_float (map Electric_Range t) of
        Inl e \<Rightarrow> Inl e
      | Inr ers \<Rightarrow>
          (case astype cell_to_float (map Base_MSRP t) of
             Inl e \<Rightarrow> Inl e
           | Inr bms \<Rightarrow>
               (case astype cell_to_int (map Model_Year t) of
                  Inl e \<Rightarrow> Inl e
                | Inr mys \<Rightarrow>
                    Inr (map (\<lambda>(r, er, bm, my). rename r er bm my)
                          (zip t (zip ers (zip bms mys)))))))"

section \<open>Geo Extractor: lines 72 and 73\<close>

text \<open>
  The pattern is \<^verbatim>\<open>POINT \(([-\d\.]+) ([-\d\.]+)\)\<close>, searched from the left.  Neither the
  space nor the closing parenthesis is in the character class, so a group that matches
  is the whole run of class characters: the greedy match has nothing to give back.
\<close>

definition is_point_char :: "char \<Rightarrow> bool" where
  "is_point_char c \<longleftrightarrow> c = CHR ''-'' \<or> is_digit c \<or> c = CHR ''.''"

definition strip_prefix :: "string \<Rightarrow> string \<Rightarrow> string option" where
  "strip_prefix p s = (if take (length p) s = p then Some (drop (length p) s) else None)"

definition match_point_at :: "string \<Rightarrow> (string \<times> string) option" where
  "match_point_at s =
     (case strip_prefix ''POINT ('' s of
        None \<Rightarrow> None
      | Some r1 \<Rightarrow>
          (let g1 = takeWhile is_point_char r1 in
           if g1 = [] then None
           else (case strip_prefix '' '' (dropWhile is_point_char r1) of
                   None \<Rightarrow> None
                 | Some r2 \<Rightarrow>
                     (let g2 = takeWhile is_point_char r2 in
                      if g2 = [] then None
                      else (case strip_prefix '')'' (dropWhile is_point_char r2) of
                              None \<Rightarrow> None
                            | Some _ \<Rightarrow> Some (g1, g2))))))"

fun search_point :: "string \<Rightarrow> (string \<times> string) option" where
  "search_point [] = None"
| "search_point (c # cs) =
     (case match_point_at (c # cs) of Some g \<Rightarrow> Some g | None \<Rightarrow> search_point cs)"

text \<open>
  The pattern as a set of strings: it matches at the start of \<open>s\<close> with the groups \<open>a\<close>
  and \<open>b\<close> when \<open>s\<close> starts with \<^verbatim>\<open>POINT (\<close>, \<open>a\<close>, a space, \<open>b\<close> and \<^verbatim>\<open>)\<close>, both groups
  being non-empty runs of class characters.
\<close>

definition matches_at :: "string \<Rightarrow> string \<Rightarrow> string \<Rightarrow> bool" where
  "matches_at s a b \<longleftrightarrow>
     a \<noteq> [] \<and> b \<noteq> [] \<and> list_all is_point_char a \<and> list_all is_point_char b \<and>
     strip_prefix (''POINT ('' @ a @ '' '' @ b @ '')'') s \<noteq> None"

definition geo_extract_row :: "row \<Rightarrow> geo_row" where
  "geo_extract_row r =
     (let loc = (case vehicle_location r of None \<Rightarrow> ''POINT EMPTY'' | Some s \<Rightarrow> s);
          m = search_point loc
      in row.extend (r\<lparr>vehicle_location := Some loc\<rparr>)
           (geo_row.fields (map_option fst m) (map_option snd m)))"

definition geo_extract :: "row list \<Rightarrow> geo_row list" where
  "geo_extract t = map geo_extract_row t"

section \<open>Imputer: lines 82 to 92\<close>

instantiation fl :: linorder
begin

definition less_eq_fl :: "fl \<Rightarrow> fl \<Rightarrow> bool" where
  "less_eq_fl x y =
     (case (x, y) of
        (NInf, _) \<Rightarrow> True
      | (_, PInf) \<Rightarrow> True
      | (Fin a, Fin b) \<Rightarrow> a \<le> b
      | _ \<Rightarrow> False)"

definition less_fl :: "fl \<Rightarrow> fl \<Rightarrow> bool" where
  "less_fl x y = (x \<le> y \<and> \<not> y \<le> (x::fl))"

instance
proof
  fix x y z :: fl
  show "(x < y) = (x \<le> y \<and> \<not> y \<le> x)"
    by (simp add: less_fl_def)
  show "x \<le> x"
    by (cases x) (simp_all add: less_eq_fl_def)
  show "x \<le> y \<Longrightarrow> y \<le> z \<Longrightarrow> x \<le> z"
    by (cases x; cases y; cases z) (simp_all add: less_eq_fl_def)
  show "x \<le> y \<Longrightarrow> y \<le> x \<Longrightarrow> x = y"
    by (cases x; cases y) (simp_all add: less_eq_fl_def)
  show "x \<le> y \<or> y \<le> x"
    by (cases x; cases y) (auto simp add: less_eq_fl_def)
qed

end

text \<open>The mean of the two middle values: opposite infinities add up to NaN.\<close>

fun mean2 :: "fl \<Rightarrow> fl \<Rightarrow> fl option" where
  "mean2 (Fin a) (Fin b) = Some (Fin ((a + b) / 2))"
| "mean2 PInf NInf = None"
| "mean2 NInf PInf = None"
| "mean2 PInf _ = Some PInf"
| "mean2 _ PInf = Some PInf"
| "mean2 NInf _ = Some NInf"
| "mean2 _ NInf = Some NInf"

fun dropna :: "'a option list \<Rightarrow> 'a list" where
  "dropna [] = []"
| "dropna (None # xs) = dropna xs"
| "dropna (Some x # xs) = x # dropna xs"

text \<open>\<^verbatim>\<open>Series.median()\<close> skips the missing cells; of no value at all it is NaN.\<close>

definition median :: "fl option list \<Rightarrow> fl option" where
  "median xs =
     (let ys = sort (dropna xs); n = length ys
      in if n = 0 then None
         else if odd n then Some (ys ! (n div 2))
         else mean2 (ys ! (n div 2 - 1)) (ys ! (n div 2)))"

definition fillna :: "'a option \<Rightarrow> 'a option \<Rightarrow> 'a option" where
  "fillna v x = (case x of None \<Rightarrow> v | Some y \<Rightarrow> Some y)"

text \<open>The two columns the Imputer treats, with their read and write access.\<close>

datatype numcol = Col_base_msrp | Col_electric_range

fun get_col :: "numcol \<Rightarrow> 'a row_scheme \<Rightarrow> fl option" where
  "get_col Col_base_msrp r = base_msrp r"
| "get_col Col_electric_range r = electric_range r"

fun set_col :: "numcol \<Rightarrow> fl option \<Rightarrow> 'a row_scheme \<Rightarrow> 'a row_scheme" where
  "set_col Col_base_msrp v r = r\<lparr>base_msrp := v\<rparr>"
| "set_col Col_electric_range v r = r\<lparr>electric_range := v\<rparr>"

text \<open>Lines 82 and 83: \<^verbatim>\<open>replace({0: np.nan})\<close> on one column.\<close>

definition replace_zero :: "numcol \<Rightarrow> 'a row_scheme list \<Rightarrow> 'a row_scheme list" where
  "replace_zero c t =
     map (\<lambda>r. set_col c (if get_col c r = Some (Fin 0) then None else get_col c r) r) t"

text \<open>
  \<^verbatim>\<open>groupby(keys)[col].transform(lambda x: x.fillna(x.median()))\<close>.  \<^verbatim>\<open>groupby\<close> drops the
  rows with a missing key (\<^verbatim>\<open>dropna=True\<close> is the default): they are in no group, and the
  transformed column holds NaN at their positions.  A key of several columns is missing
  as soon as one of them is.
\<close>

definition groupby_transform_fill ::
  "('r \<Rightarrow> 'k option) \<Rightarrow> ('r \<Rightarrow> fl option) \<Rightarrow> 'r list \<Rightarrow> fl option list" where
  "groupby_transform_fill key col t =
     map (\<lambda>r. case key r of
                 None \<Rightarrow> None
               | Some k \<Rightarrow> fillna (median (map col (filter (\<lambda>r'. key r' = Some k) t))) (col r))
         t"

definition make_model_key :: "'a row_scheme \<Rightarrow> (string \<times> string) option" where
  "make_model_key r =
     (case make' r of
        None \<Rightarrow> None
      | Some a \<Rightarrow> (case model r of None \<Rightarrow> None | Some b \<Rightarrow> Some (a, b)))"

text \<open>\<^verbatim>\<open>dt[col] = values\<close>: the column is overwritten, row by row.\<close>

definition assign_col :: "numcol \<Rightarrow> fl option list \<Rightarrow> 'a row_scheme list \<Rightarrow> 'a row_scheme list" where
  "assign_col c vs t = map (\<lambda>(r, v). set_col c v r) (zip t vs)"

definition fill_missing_col :: "numcol \<Rightarrow> 'a row_scheme list \<Rightarrow> 'a row_scheme list" where
  "fill_missing_col c t =
     (let t1 = assign_col c (groupby_transform_fill make_model_key (get_col c) t) t;
          t2 = assign_col c (groupby_transform_fill make' (get_col c) t1) t1
      in assign_col c (map (fillna (median (map (get_col c) t2))) (map (get_col c) t2)) t2)"

definition fill_missing :: "'a row_scheme list \<Rightarrow> numcol list \<Rightarrow> 'a row_scheme list" where
  "fill_missing t cols_list = foldl (\<lambda>t c. fill_missing_col c t) t cols_list"

definition impute :: "'a row_scheme list \<Rightarrow> 'a row_scheme list" where
  "impute t =
     fill_missing (replace_zero Col_base_msrp (replace_zero Col_electric_range t))
       [Col_base_msrp, Col_electric_range]"

section \<open>Categorical Encoder: lines 96 to 101\<close>

definition ev_type_codes :: "(string \<times> string) list" where
  "ev_type_codes =
     [(''Battery Electric Vehicle (BEV)'', ''1''),
      (''Plug-in Hybrid Electric Vehicle (PHEV)'', ''2'')]"

definition cafv_codes :: "(string \<times> string) list" where
  "cafv_codes =
     [(''Clean Alternative Fuel Vehicle Eligible'', ''1''),
      (''Not eligible due to low battery range'', ''2''),
      (''Eligibility unknown as battery range has not been researched'', ''3'')]"

text \<open>\<^verbatim>\<open>Series.replace(dict)\<close>: a cell equal to a key becomes its value, any other cell stays.\<close>

definition replace_dict :: "(string \<times> string) list \<Rightarrow> string option \<Rightarrow> string option" where
  "replace_dict d v =
     (case v of
        None \<Rightarrow> None
      | Some s \<Rightarrow> (case map_of d s of None \<Rightarrow> Some s | Some c \<Rightarrow> Some c))"

definition encode_row :: "'a row_scheme \<Rightarrow> 'a row_scheme" where
  "encode_row r =
     r\<lparr>ev_type := replace_dict ev_type_codes (ev_type r),
       cafv_eligibility := replace_dict cafv_codes (cafv_eligibility r)\<rparr>"

definition encode :: "'a row_scheme list \<Rightarrow> 'a row_scheme list" where
  "encode t = map encode_row t"

section \<open>Dimensionalizer: lines 108 to 130\<close>

text \<open>The defining columns of the five dimensions, as \<^verbatim>\<open>dt[[...]]\<close> selects them.\<close>

definition vehicle_model_cols ::
  "'a row_scheme \<Rightarrow> string option \<times> string option \<times> int \<times> string option \<times> fl option \<times> fl option" where
  "vehicle_model_cols r =
     (make' r, model r, model_year r, ev_type r, electric_range r, base_msrp r)"

definition location_cols ::
  "'a geo_row_scheme \<Rightarrow>
     string option \<times> string option \<times> string option \<times> string option \<times> string option \<times> string option" where
  "location_cols r = (state r, county r, city r, postal_code r, latitude r, longitude r)"

definition policy_cols :: "'a row_scheme \<Rightarrow> string option" where
  "policy_cols r = cafv_eligibility r"

definition district_cols :: "'a row_scheme \<Rightarrow> string option \<times> string option" where
  "district_cols r = (legislative_district r, census_tract r)"

definition utility_cols :: "'a row_scheme \<Rightarrow> string option" where
  "utility_cols r = electric_utility r"

text \<open>
  \<^verbatim>\<open>drop_duplicates()\<close> keeps the first row of every group of equal rows, in the order
  of the table; two missing cells count as equal.
\<close>

fun drop_duplicates :: "'a list \<Rightarrow> 'a list" where
  "drop_duplicates [] = []"
| "drop_duplicates (x # xs) = x # drop_duplicates (filter (\<lambda>y. y \<noteq> x) xs)"

text \<open>
  A dimension table: the distinct rows of the selected columns, each with
  \<^verbatim>\<open>index + 1\<close> of the index that \<^verbatim>\<open>reset_index(drop=True)\<close> numbers from 0.
\<close>

definition build_dim :: "('r \<Rightarrow> 'k) \<Rightarrow> 'r list \<Rightarrow> ('k \<times> nat) list" where
  "build_dim cols t =
     (let d = drop_duplicates (map cols t) in zip d (map (\<lambda>i. i + 1) [0..<length d]))"

text \<open>
  \<^verbatim>\<open>dt.merge(dim, on=cols, how='left')\<close>: the rows of \<open>dt\<close> in their order, each one once
  for every row of the dimension with equal defining columns (missing cells match missing
  cells), and once with a missing key when there is none.
\<close>

definition merge_left :: "('r \<Rightarrow> 'k) \<Rightarrow> 'r list \<Rightarrow> ('k \<times> nat) list \<Rightarrow> ('r \<times> nat option) list" where
  "merge_left cols t dimt =
     concat (map (\<lambda>r. case filter (\<lambda>d. fst d = cols r) dimt of
                         [] \<Rightarrow> [(r, None)]
                       | m # ms \<Rightarrow> map (\<lambda>d. (r, Some (snd d))) (m # ms))
                 t)"

record vm_row = geo_row +
  vehicle_model_id :: "nat option"

record loc_row = vm_row +
  location_id :: "nat option"

record pol_row = loc_row +
  policy_id :: "nat option"

record dist_row = pol_row +
  district_id :: "nat option"

record util_row = dist_row +
  utility_id :: "nat option"

definition join_vehicle_model :: "geo_row list \<Rightarrow> (_ \<times> nat) list \<Rightarrow> vm_row list" where
  "join_vehicle_model t dimt =
     map (\<lambda>(r, k). geo_row.extend r (vm_row.fields k)) (merge_left vehicle_model_cols t dimt)"

definition join_location :: "vm_row list \<Rightarrow> (_ \<times> nat) list \<Rightarrow> loc_row list" where
  "join_location t dimt =
     map (\<lambda>(r, k). vm_row.extend r (loc_row.fields k)) (merge_left location_cols t dimt)"

definition join_policy :: "loc_row list \<Rightarrow> (_ \<times> nat) list \<Rightarrow> pol_row list" where
  "join_policy t dimt =
     map (\<lambda>(r, k). loc_row.extend r (pol_row.fields k)) (merge_left policy_cols t dimt)"

definition join_district :: "pol_row list \<Rightarrow> (_ \<times> nat) list \<Rightarrow> dist_row list" where
  "join_district t dimt =
     map (\<lambda>(r, k). pol_row.extend r (dist_row.fields k)) (merge_left district_cols t dimt)"

definition join_utility :: "dist_row list \<Rightarrow> (_ \<times> nat) list \<Rightarrow> util_row list" where
  "join_utility t dimt =
     map (\<lambda>(r, k). dist_row.extend r (util_row.fields k)) (merge_left utility_cols t dimt)"

section \<open>Fact Assembler: lines 133 and 134\<close>

record fact_row =
  vin :: "string option"
  dol_vehicle_id :: "string option"
  vehicle_model_id :: "nat option"
  location_id :: "nat option"
  policy_id :: "nat option"
  district_id :: "nat option"
  utility_id :: "nat option"
  ev_id :: nat

definition fact_of :: "util_row \<Rightarrow> nat \<Rightarrow> fact_row" where
  "fact_of r i =
     \<lparr> vin = row.vin r, dol_vehicle_id = row.dol_vehicle_id r,
       vehicle_model_id = vm_row.vehicle_model_id r, location_id = loc_row.location_id r,
       policy_id = pol_row.policy_id r, district_id = dist_row.district_id r,
       utility_id = util_row.utility_id r, ev_id = i + 1 \<rparr>"

definition build_fact :: "util_row list \<Rightarrow> fact_row list" where
  "build_fact t = map (\<lambda>(r, i). fact_of r i) (zip t [0..<length t])"

section \<open>The script from line 18 to line 134\<close>

text \<open>The six tables that the load stage writes, and the joined table they come from.\<close>

record star =
  Dim_Vehicle_model ::
    "((string option \<times> string option \<times> int \<times> string option \<times> fl option \<times> fl option) \<times> nat) list"
  Dim_Location ::
    "((string option \<times> string option \<times> string option \<times> string option \<times> string option \<times> string option)
      \<times> nat) list"
  Dim_Policy_Eligibility :: "(string option \<times> nat) list"
  Dim_District :: "((string option \<times> string option) \<times> nat) list"
  Dim_Utility :: "(string option \<times> nat) list"
  Fact_EV :: "fact_row list"
  joined :: "util_row list"

definition transform :: "raw_row list \<Rightarrow> error + geo_row list" where
  "transform raw =
     (case normalize (filter_state raw) of
        Inl e \<Rightarrow> Inl e
      | Inr t \<Rightarrow> Inr (encode (impute (geo_extract t))))"

definition dimensionalize :: "geo_row list \<Rightarrow> star" where
  "dimensionalize t0 =
     (let d1 = build_dim vehicle_model_cols t0; t1 = join_vehicle_model t0 d1;
          d2 = build_dim location_cols t1; t2 = join_location t1 d2;
          d3 = build_dim policy_cols t2; t3 = join_policy t2 d3;
          d4 = build_dim district_cols t3; t4 = join_district t3 d4;
          d5 = build_dim utility_cols t4; t5 = join_utility t4 d5
      in \<lparr> Dim_Vehicle_model = d1, Dim_Location = d2, Dim_Policy_Eligibility = d3,
           Dim_District = d4, Dim_Utility = d5, Fact_EV = build_fact t5, joined = t5 \<rparr>)"

definition pipeline :: "raw_row list \<Rightarrow> error + star" where
  "pipeline raw =
     (case transform raw of Inl e \<Rightarrow> Inl e | Inr t \<Rightarrow> Inr (dimensionalize t))"

section \<open>Predicates of the statements\<close>

text \<open>The position of the first occurrence of a value in a list.\<close>

definition first_index :: "'a list \<Rightarrow> 'a \<Rightarrow> nat" where
  "first_index xs x = length (takeWhile (\<lambda>y. y \<noteq> x) xs)"

text \<open>
  What a dimension table of a table \<open>t\<close> is: its rows differ on the defining columns, hold
  exactly the combinations that occur in \<open>t\<close>, as many as there are, carry the keys
  \<open>1\<close> to \<open>N\<close> in this order, and stand in the order in which their combinations first
  occur in \<open>t\<close>.
\<close>

definition is_dimension_of :: "('r \<Rightarrow> 'k) \<Rightarrow> 'r list \<Rightarrow> ('k \<times> nat) list \<Rightarrow> bool" where
  "is_dimension_of cols t d \<longleftrightarrow>
     distinct (map fst d) \<and>
     set (map fst d) = cols ` set t \<and>
     length d = card (cols ` set t) \<and>
     map snd d = [1..<Suc (length d)] \<and>
     sorted_wrt (<) (map (first_index (map cols t)) (map fst d))"

text \<open>One foreign key of one joined row resolves to exactly one row of its dimension.\<close>

definition resolves :: "'k \<Rightarrow> nat option \<Rightarrow> ('k \<times> nat) list \<Rightarrow> bool" where
  "resolves key fk d \<longleftrightarrow>
     (case fk of None \<Rightarrow> False | Some k \<Rightarrow> filter (\<lambda>x. fst x = key) d = [(key, k)])"

text \<open>The typed row of a raw row whose three casts succeed.\<close>

definition typed_row :: "raw_row \<Rightarrow> row" where
  "typed_row r =
     rename r (projr (cell_to_float (Electric_Range r))) (projr (cell_to_float (Base_MSRP r)))
       (projr (cell_to_int (Model_Year r)))"

definition castable :: "raw_row \<Rightarrow> bool" where
  "castable r \<longleftrightarrow>
     \<not> isl (cell_to_float (Electric_Range r)) \<and> \<not> isl (cell_to_float (Base_MSRP r)) \<and>
     \<not> isl (cell_to_int (Model_Year r))"

text \<open>
  A row with a cell that a cast rejects: a range or a price that \<^verbatim>\<open>float\<close> cannot read, or
  a year that \<^verbatim>\<open>int\<close> cannot read.  A missing year counts, since NaN has no integer
  value; a missing range or price is NaN and is accepted.
\<close>

definition non_numeric :: "raw_row \<Rightarrow> bool" where
  "non_numeric r \<longleftrightarrow>
     cell_to_float (Electric_Range r) = Inl ValueError \<or>
     cell_to_float (Base_MSRP r) = Inl ValueError \<or>
     cell_to_int (Model_Year r) = Inl ValueError"

text \<open>
  Two rows that agree on every column but \<^verbatim>\<open>base_msrp\<close> and \<^verbatim>\<open>electric_range\<close>.
\<close>

definition same_other_columns :: "'a row_scheme \<Rightarrow> 'a row_scheme \<Rightarrow> bool" where
  "same_other_columns r r' \<longleftrightarrow>
     r'\<lparr>base_msrp := base_msrp r, electric_range := electric_range r\<rparr> = r"

section \<open>Sample inputs\<close>

text \<open>
  Two registrations of the same vehicle model in the jurisdiction, the first with a
  price of zero and no utility, and one registration from another state.
\<close>

definition sample_raw :: raw_row where
  "sample_raw =
     \<lparr> VIN_1_10 = Some ''5YJ3E1EA0L'', County = Some ''King'', City = Some ''Seattle'',
       State = Some ''WA'', Postal_Code = Some ''98101'', Model_Year = Some ''2020'',
       Make = Some ''TESLA'', Model = Some ''MODEL 3'',
       Electric_Vehicle_Type = Some ''Battery Electric Vehicle (BEV)'',
       CAFV_Eligibility = Some ''Clean Alternative Fuel Vehicle Eligible'',
       Electric_Range = Some ''150'', Base_MSRP = Some ''0'',
       Legislative_District = Some ''43'', DOL_Vehicle_ID = Some ''100000001'',
       Vehicle_Location = Some ''POINT (-122.3 47.6)'', Electric_Utility = None,
       Census_Tract_2020 = Some ''53033007302'' \<rparr>"

definition sample_raw2 :: raw_row where
  "sample_raw2 =
     sample_raw\<lparr>VIN_1_10 := Some ''5YJ3E1EA1L'', Base_MSRP := Some ''45000'',
       DOL_Vehicle_ID := Some ''100000002''\<rparr>"

definition sample_raw_or :: raw_row where
  "sample_raw_or = sample_raw\<lparr>State := Some ''OR'', Model_Year := Some ''n/a''\<rparr>"

definition sample_raw3 :: raw_row where
  "sample_raw3 =
     \<lparr> VIN_1_10 = Some ''1N4AZ0CP5D'', County = Some ''Thurston'', City = Some ''Olympia'',
       State = Some ''WA'', Postal_Code = Some ''98501'', Model_Year = Some ''2013'',
       Make = Some ''NISSAN'', Model = Some ''LEAF'',
       Electric_Vehicle_Type = Some ''Battery Electric Vehicle (BEV)'',
       CAFV_Eligibility = Some ''Clean Alternative Fuel Vehicle Eligible'',
       Electric_Range = Some ''75'', Base_MSRP = None,
       Legislative_District = Some ''22'', DOL_Vehicle_ID = Some ''100000003'',
       Vehicle_Location = None, Electric_Utility = Some ''PUGET SOUND ENERGY INC'',
       Census_Tract_2020 = None \<rparr>"

definition samples :: "raw_row list" where
  "samples = [sample_raw, sample_raw_or, sample_raw2, sample_raw3]"

text \<open>Two registrations with a cell that is not a number.\<close>

definition sample_bad_range :: raw_row where
  "sample_bad_range = sample_raw2\<lparr>Electric_Range := Some ''n/a''\<rparr>"

definition sample_bad_year :: raw_row where
  "sample_bad_year = sample_raw2\<lparr>Model_Year := Some ''2020.5''\<rparr>"

definition sample_row :: row where
  "sample_row = rename sample_raw (Some (Fin 150)) (Some (Fin 0)) 2020"

text \<open>Four rows for the encoder: the known codes, an unknown text and a missing cell.\<close>

definition sample_codes :: "row list" where
  "sample_codes =
     [sample_row,
      sample_row\<lparr>ev_type := Some ''Plug-in Hybrid Electric Vehicle (PHEV)'',
        cafv_eligibility := Some ''Not eligible due to low battery range''\<rparr>,
      sample_row\<lparr>ev_type := Some ''Fuel Cell'', cafv_eligibility := Some ''Unknown text''\<rparr>,
      sample_row\<lparr>ev_type := None,
        cafv_eligibility := Some ''Eligibility unknown as battery range has not been researched''\<rparr>]"

text \<open>Four locations: a point, a point after other text, no point, no location.\<close>

definition sample_geo :: "row list" where
  "sample_geo =
     [sample_row,
      sample_row\<lparr>vehicle_location := Some ''xPOINT (1.5 -2) POINT (3 4)''\<rparr>,
      sample_row\<lparr>vehicle_location := Some ''POINT (47.6)''\<rparr>,
      sample_row\<lparr>vehicle_location := None\<rparr>]"

section \<open>Categorical Encoder: the mapping\<close>

lemma length_encode: "length (encode t) = length t"
  by (simp add: encode_def)

text \<open>
  Claim C5.  The encoder keeps the number of rows and, on every row, replaces the two
  known vehicle types by \<open>1\<close> and \<open>2\<close> and the three known eligibility texts by \<open>1\<close>,
  \<open>2\<close> and \<open>3\<close>; a cell with any other content, or a missing cell, is left as it is.
  The encoder is a total function: no input makes it fail.
\<close>

theorem encoder_mapping:
  fixes t :: "'a row_scheme list"
  shows "length (encode t) = length t \<and>
   (\<forall>i < length t.
      (ev_type (t ! i) = Some ''Battery Electric Vehicle (BEV)'' \<longrightarrow>
         ev_type (encode t ! i) = Some ''1'') \<and>
      (ev_type (t ! i) = Some ''Plug-in Hybrid Electric Vehicle (PHEV)'' \<longrightarrow>
         ev_type (encode t ! i) = Some ''2'') \<and>
      (ev_type (t ! i) \<noteq> Some ''Battery Electric Vehicle (BEV)'' \<and>
       ev_type (t ! i) \<noteq> Some ''Plug-in Hybrid Electric Vehicle (PHEV)'' \<longrightarrow>
         ev_type (encode t ! i) = ev_type (t ! i)) \<and>
      (cafv_eligibility (t ! i) = Some ''Clean Alternative Fuel Vehicle Eligible'' \<longrightarrow>
         cafv_eligibility (encode t ! i) = Some ''1'') \<and>
      (cafv_eligibility (t ! i) = Some ''Not eligible due to low battery range'' \<longrightarrow>
         cafv_eligibility (encode t ! i) = Some ''2'') \<and>
      (cafv_eligibility (t ! i) =
         Some ''Eligibility unknown as battery range has not been researched'' \<longrightarrow>
         cafv_eligibility (encode t ! i) = Some ''3'') \<and>
      (cafv_eligibility (t ! i) \<noteq> Some ''Clean Alternative Fuel Vehicle Eligible'' \<and>
       cafv_eligibility (t ! i) \<noteq> Some ''Not eligible due to low battery range'' \<and>
       cafv_eligibility (t ! i) \<noteq>
         Some ''Eligibility unknown as battery range has not been researched'' \<longrightarrow>
         cafv_eligibility (encode t ! i) = cafv_eligibility (t ! i)))"
  by (auto simp add: encode_def encode_row_def replace_dict_def ev_type_codes_def
      cafv_codes_def split: option.splits)

lemmas sample_defs = sample_codes_def sample_row_def rename_def sample_raw_def

theorem encoder_mapping_witness:
  "length (encode sample_codes) = 4 \<and>
   map ev_type (encode sample_codes) = [Some ''1'', Some ''2'', Some ''Fuel Cell'', None] \<and>
   map cafv_eligibility (encode sample_codes) =
     [Some ''1'', Some ''2'', Some ''Unknown text'', Some ''3'']"
proof -
  note h = encoder_mapping [of sample_codes, THEN conjunct2, rule_format]
  have l: "length (encode sample_codes) = 4"
    using encoder_mapping [of sample_codes] by (simp add: sample_codes_def)
  have r0: "ev_type (encode sample_codes ! 0) = Some ''1'' \<and>
      cafv_eligibility (encode sample_codes ! 0) = Some ''1''"
    using h [of 0] by (simp add: sample_defs)
  have r1: "ev_type (encode sample_codes ! 1) = Some ''2'' \<and>
      cafv_eligibility (encode sample_codes ! 1) = Some ''2''"
    using h [of 1] by (simp add: sample_defs)
  have r2: "ev_type (encode sample_codes ! 2) = Some ''Fuel Cell'' \<and>
      cafv_eligibility (encode sample_codes ! 2) = Some ''Unknown text''"
    using h [of 2] by (simp add: sample_defs)
  have r3: "ev_type (encode sample_codes ! 3) = None \<and>
      cafv_eligibility (encode sample_codes ! 3) = Some ''3''"
    using h [of 3] by (simp add: sample_defs)
  have m: "\<And>f. map f (encode sample_codes) =
      [f (encode sample_codes ! 0), f (encode sample_codes ! 1),
       f (encode sample_codes ! 2), f (encode sample_codes ! 3)]"
    by (simp add: encode_def sample_codes_def)
  show ?thesis
    by (simp only: l m r0 r1 r2 r3 simp_thms)
qed

section \<open>Geo Extractor: the pattern and the two derived columns\<close>

lemma strip_prefix_Some: "strip_prefix p s = Some r \<longleftrightarrow> s = p @ r"
  unfolding strip_prefix_def
  by (metis append_eq_conv_conj append_take_drop_id option.distinct(1) option.inject)

lemma strip_prefix_append: "strip_prefix p (p @ r) = Some r"
  by (simp add: strip_prefix_Some)

lemma not_point_char_space: "\<not> is_point_char CHR '' ''"
  by (simp add: is_point_char_def is_digit_def)

lemma not_point_char_paren: "\<not> is_point_char CHR '')''"
  by (simp add: is_point_char_def is_digit_def)

lemma takeWhile_run:
  "list_all P a \<Longrightarrow> \<not> P c \<Longrightarrow> takeWhile P (a @ c # r) = a"
  by (induction a) auto

lemma dropWhile_run:
  "list_all P a \<Longrightarrow> \<not> P c \<Longrightarrow> dropWhile P (a @ c # r) = c # r"
  by (induction a) auto

lemma match_point_at_complete:
  assumes "matches_at s a b"
  shows "match_point_at s = Some (a, b)"
proof -
  from assms obtain rest where
    s: "s = ''POINT ('' @ a @ '' '' @ b @ '')'' @ rest"
    and a: "a \<noteq> []" "list_all is_point_char a"
    and b: "b \<noteq> []" "list_all is_point_char b"
    unfolding matches_at_def by (auto simp add: strip_prefix_Some)
  have s1: "strip_prefix ''POINT ('' s = Some (a @ CHR '' '' # b @ CHR '')'' # rest)"
    unfolding s by (simp add: strip_prefix_def)
  have t1: "takeWhile is_point_char (a @ CHR '' '' # b @ CHR '')'' # rest) = a"
    by (rule takeWhile_run [OF a(2) not_point_char_space])
  have d1: "dropWhile is_point_char (a @ CHR '' '' # b @ CHR '')'' # rest) =
      CHR '' '' # b @ CHR '')'' # rest"
    by (rule dropWhile_run [OF a(2) not_point_char_space])
  have s2: "strip_prefix '' '' (CHR '' '' # b @ CHR '')'' # rest) = Some (b @ CHR '')'' # rest)"
    by (simp add: strip_prefix_def)
  have t2: "takeWhile is_point_char (b @ CHR '')'' # rest) = b"
    by (rule takeWhile_run [OF b(2) not_point_char_paren])
  have d2: "dropWhile is_point_char (b @ CHR '')'' # rest) = CHR '')'' # rest"
    by (rule dropWhile_run [OF b(2) not_point_char_paren])
  have s3: "strip_prefix '')'' (CHR '')'' # rest) = Some rest"
    by (simp add: strip_prefix_def)
  show ?thesis
    unfolding match_point_at_def
    by (simp add: s1 t1 d1 s2 t2 d2 s3 a b Let_def)
qed

lemma list_all_takeWhile: "list_all P (takeWhile P xs)"
  by (induction xs) auto

lemma match_point_at_sound:
  assumes "match_point_at s = Some (a, b)"
  shows "matches_at s a b"
proof -
  from assms obtain r1 where r1: "strip_prefix ''POINT ('' s = Some r1"
    unfolding match_point_at_def by (auto split: option.splits)
  from assms r1 have a: "a = takeWhile is_point_char r1" "a \<noteq> []"
    unfolding match_point_at_def by (auto simp add: Let_def split: option.splits if_splits)
  from assms r1 obtain r2 where
    r2: "strip_prefix '' '' (dropWhile is_point_char r1) = Some r2"
    unfolding match_point_at_def by (auto simp add: Let_def split: option.splits if_splits)
  from assms r1 r2 have b: "b = takeWhile is_point_char r2" "b \<noteq> []"
    unfolding match_point_at_def by (auto simp add: Let_def split: option.splits if_splits)
  from assms r1 r2 obtain r3 where
    r3: "strip_prefix '')'' (dropWhile is_point_char r2) = Some r3"
    unfolding match_point_at_def by (auto simp add: Let_def split: option.splits if_splits)
  have "s = ''POINT ('' @ r1"
    using r1 by (simp only: strip_prefix_Some)
  moreover have "r1 = a @ dropWhile is_point_char r1"
    by (simp add: a)
  moreover have "dropWhile is_point_char r1 = '' '' @ r2"
    using r2 by (simp only: strip_prefix_Some)
  moreover have "r2 = b @ dropWhile is_point_char r2"
    by (simp add: b)
  moreover have "dropWhile is_point_char r2 = '')'' @ r3"
    using r3 by (simp only: strip_prefix_Some)
  ultimately have "s = (''POINT ('' @ a @ '' '' @ b @ '')'') @ r3"
    by (metis append.assoc)
  then have "strip_prefix (''POINT ('' @ a @ '' '' @ b @ '')'') s = Some r3"
    by (simp only: strip_prefix_append)
  then show ?thesis
    unfolding matches_at_def
    using a b by (simp add: list_all_takeWhile)
qed

lemma match_point_at_iff: "match_point_at s = Some (a, b) \<longleftrightarrow> matches_at s a b"
  using match_point_at_sound match_point_at_complete by blast

lemma match_point_at_None: "match_point_at s = None \<longleftrightarrow> (\<forall>a b. \<not> matches_at s a b)"
proof
  assume "match_point_at s = None"
  then show "\<forall>a b. \<not> matches_at s a b"
    using match_point_at_complete by fastforce
next
  assume h: "\<forall>a b. \<not> matches_at s a b"
  show "match_point_at s = None"
  proof (cases "match_point_at s")
    case None
    then show ?thesis .
  next
    case (Some g)
    then have "matches_at s (fst g) (snd g)"
      using match_point_at_sound [of s "fst g" "snd g"] by simp
    with h show ?thesis by blast
  qed
qed

lemma not_matches_at_Nil: "\<not> matches_at [] a b"
  by (simp add: matches_at_def strip_prefix_def)

lemma search_point_None: "search_point s = None \<longleftrightarrow> (\<forall>n a b. \<not> matches_at (drop n s) a b)"
proof (induction s)
  case Nil
  then show ?case by (simp add: not_matches_at_Nil)
next
  case (Cons c cs)
  show ?case
  proof
    assume l: "search_point (c # cs) = None"
    then have m: "match_point_at (c # cs) = None" and r: "search_point cs = None"
      by (auto split: option.splits)
    show "\<forall>n a b. \<not> matches_at (drop n (c # cs)) a b"
    proof (intro allI)
      fix n a b
      show "\<not> matches_at (drop n (c # cs)) a b"
      proof (cases n)
        case 0
        with m show ?thesis by (simp add: match_point_at_None)
      next
        case (Suc k)
        with r Cons.IH show ?thesis by simp
      qed
    qed
  next
    assume h: "\<forall>n a b. \<not> matches_at (drop n (c # cs)) a b"
    from h [rule_format, of 0] have m: "match_point_at (c # cs) = None"
      by (simp add: match_point_at_None)
    have "\<forall>n a b. \<not> matches_at (drop n cs) a b"
      using h [rule_format, of "Suc _"] by simp
    with Cons.IH have "search_point cs = None" by simp
    with m show "search_point (c # cs) = None" by simp
  qed
qed

lemma search_point_leftmost:
  assumes "matches_at (drop n s) a b"
    and "\<forall>m<n. \<forall>a' b'. \<not> matches_at (drop m s) a' b'"
  shows "search_point s = Some (a, b)"
  using assms
proof (induction s arbitrary: n)
  case Nil
  then show ?case by (simp add: not_matches_at_Nil)
next
  case (Cons c cs)
  show ?case
  proof (cases n)
    case 0
    with Cons.prems(1) have "match_point_at (c # cs) = Some (a, b)"
      by (simp add: match_point_at_complete)
    then show ?thesis by simp
  next
    case (Suc k)
    with Cons.prems(2) have "\<forall>a' b'. \<not> matches_at (drop 0 (c # cs)) a' b'"
      by blast
    then have m: "match_point_at (c # cs) = None"
      by (simp add: match_point_at_None)
    have 1: "matches_at (drop k cs) a b"
      using Cons.prems(1) Suc by simp
    have 2: "\<forall>m<k. \<forall>a' b'. \<not> matches_at (drop m cs) a' b'"
    proof (intro allI impI)
      fix m a' b' assume "m < k"
      then have "Suc m < n" using Suc by simp
      with Cons.prems(2) have "\<not> matches_at (drop (Suc m) (c # cs)) a' b'" by blast
      then show "\<not> matches_at (drop m cs) a' b'" by simp
    qed
    from Cons.IH [OF 1 2] m show ?thesis by simp
  qed
qed

lemma lat_geo: "latitude (geo_extract_row r) =
    map_option fst (search_point (case vehicle_location r of None \<Rightarrow> ''POINT EMPTY'' | Some s \<Rightarrow> s))"
  by (simp add: geo_extract_row_def Let_def row.defs geo_row.defs)

lemma lon_geo: "longitude (geo_extract_row r) =
    map_option snd (search_point (case vehicle_location r of None \<Rightarrow> ''POINT EMPTY'' | Some s \<Rightarrow> s))"
  by (simp add: geo_extract_row_def Let_def row.defs geo_row.defs)

lemma loc_geo: "vehicle_location (geo_extract_row r) =
    Some (case vehicle_location r of None \<Rightarrow> ''POINT EMPTY'' | Some s \<Rightarrow> s)"
  by (simp add: geo_extract_row_def Let_def row.defs geo_row.defs)

lemma search_point_sentinel: "search_point ''POINT EMPTY'' = None"
  by code_simp

text \<open>
  Claim C6.  The Geo Extractor keeps every row and never fails.  On a row whose location
  text holds a match of the pattern, the leftmost one, the first group is the latitude
  cell and the second group the longitude cell; on a row whose text holds no match, and
  on a row with no location (which gets the text \<^verbatim>\<open>POINT EMPTY\<close>), both cells are missing.
\<close>

theorem geo_extract_behaviour:
  "length (geo_extract t) = length t \<and>
   (\<forall>i < length t.
      (\<forall>s n a b. vehicle_location (t ! i) = Some s \<and> matches_at (drop n s) a b \<and>
          (\<forall>m<n. \<forall>a' b'. \<not> matches_at (drop m s) a' b') \<longrightarrow>
          latitude (geo_extract t ! i) = Some a \<and> longitude (geo_extract t ! i) = Some b) \<and>
      (\<forall>s. vehicle_location (t ! i) = Some s \<and> (\<forall>n a b. \<not> matches_at (drop n s) a b) \<longrightarrow>
          latitude (geo_extract t ! i) = None \<and> longitude (geo_extract t ! i) = None) \<and>
      (vehicle_location (t ! i) = None \<longrightarrow>
          latitude (geo_extract t ! i) = None \<and> longitude (geo_extract t ! i) = None \<and>
          vehicle_location (geo_extract t ! i) = Some ''POINT EMPTY''))"
  by (auto simp add: geo_extract_def lat_geo lon_geo loc_geo search_point_sentinel
      search_point_leftmost search_point_None [THEN iffD2] simp del: search_point.simps)

theorem geo_extract_behaviour_witness:
  "map latitude (geo_extract sample_geo) = [Some ''-122.3'', Some ''1.5'', None, None] \<and>
   map longitude (geo_extract sample_geo) = [Some ''47.6'', Some ''-2'', None, None]"
proof -
  note h = geo_extract_behaviour [of sample_geo, THEN conjunct2, rule_format]
  have l: "length sample_geo = 4"
    by (simp add: sample_geo_def)
  have v0: "vehicle_location (sample_geo ! 0) = Some ''POINT (-122.3 47.6)''"
    by (simp add: sample_geo_def sample_row_def rename_def sample_raw_def)
  have m0: "matches_at (drop 0 ''POINT (-122.3 47.6)'') ''-122.3'' ''47.6''"
    by (simp add: matches_at_def strip_prefix_def is_point_char_def is_digit_def)
  have r0: "latitude (geo_extract sample_geo ! 0) = Some ''-122.3'' \<and>
      longitude (geo_extract sample_geo ! 0) = Some ''47.6''"
    using h [of 0, THEN conjunct1, rule_format, of "''POINT (-122.3 47.6)''" 0 "''-122.3''" "''47.6''"]
      v0 m0 l by simp
  have v1: "vehicle_location (sample_geo ! 1) = Some ''xPOINT (1.5 -2) POINT (3 4)''"
    by (simp add: sample_geo_def)
  have m1: "matches_at (drop 1 ''xPOINT (1.5 -2) POINT (3 4)'') ''1.5'' ''-2''"
    by (simp add: matches_at_def strip_prefix_def is_point_char_def is_digit_def)
  have "match_point_at ''xPOINT (1.5 -2) POINT (3 4)'' = None"
    by code_simp
  then have n1: "\<forall>m<1. \<forall>a' b'. \<not> matches_at (drop m ''xPOINT (1.5 -2) POINT (3 4)'') a' b'"
    by (simp add: match_point_at_None)
  have r1: "latitude (geo_extract sample_geo ! 1) = Some ''1.5'' \<and>
      longitude (geo_extract sample_geo ! 1) = Some ''-2''"
    using h [of 1, THEN conjunct1, rule_format,
        of "''xPOINT (1.5 -2) POINT (3 4)''" 1 "''1.5''" "''-2''"]
      v1 m1 n1 l by simp
  have v2: "vehicle_location (sample_geo ! 2) = Some ''POINT (47.6)''"
    by (simp add: sample_geo_def)
  have "search_point ''POINT (47.6)'' = None"
    by code_simp
  then have n2: "\<forall>n a b. \<not> matches_at (drop n ''POINT (47.6)'') a b"
    by (rule search_point_None [THEN iffD1])
  have r2: "latitude (geo_extract sample_geo ! 2) = None \<and>
      longitude (geo_extract sample_geo ! 2) = None"
    using h [of 2, THEN conjunct2, THEN conjunct1, rule_format, of "''POINT (47.6)''"]
      v2 n2 l by simp
  have v3: "vehicle_location (sample_geo ! 3) = None"
    by (simp add: sample_geo_def)
  have r3: "latitude (geo_extract sample_geo ! 3) = None \<and>
      longitude (geo_extract sample_geo ! 3) = None"
    using h [of 3, THEN conjunct2, THEN conjunct2] v3 l by simp
  have m: "\<And>f. map f (geo_extract sample_geo) =
      [f (geo_extract sample_geo ! 0), f (geo_extract sample_geo ! 1),
       f (geo_extract sample_geo ! 2), f (geo_extract sample_geo ! 3)]"
    by (simp add: geo_extract_def sample_geo_def)
  show ?thesis
    by (simp only: m r0 r1 r2 r3 simp_thms)
qed

section \<open>Dimensionalizer: distinct rows, keys and joins\<close>

lemma set_drop_duplicates: "set (drop_duplicates xs) = set xs"
  by (induction xs rule: drop_duplicates.induct) auto

lemma distinct_drop_duplicates: "distinct (drop_duplicates xs)"
  by (induction xs rule: drop_duplicates.induct) (auto simp add: set_drop_duplicates)

lemma length_drop_duplicates: "length (drop_duplicates xs) = card (set xs)"
  using distinct_card [OF distinct_drop_duplicates, of xs] by (simp add: set_drop_duplicates)

lemma drop_duplicates_snoc:
  "drop_duplicates (xs @ [x]) =
     (if x \<in> set xs then drop_duplicates xs else drop_duplicates xs @ [x])"
proof (induction xs rule: drop_duplicates.induct)
  case 1
  then show ?case by simp
next
  case (2 y ys)
  then show ?case by (auto simp add: set_drop_duplicates)
qed

lemma fst_build_dim: "map fst (build_dim cols t) = drop_duplicates (map cols t)"
  by (simp add: build_dim_def Let_def)

lemma map_plus1_upt: "map (\<lambda>i. i + 1) [0..<n] = [1..<Suc n]"
  by (induction n) auto

lemma length_build_dim_drop:
  "length (build_dim cols t) = length (drop_duplicates (map cols t))"
  by (simp add: build_dim_def Let_def)

lemma snd_build_dim: "map snd (build_dim cols t) = [1..<Suc (length (build_dim cols t))]"
proof -
  have "map snd (build_dim cols t) =
      map (\<lambda>i. i + 1) [0..<length (drop_duplicates (map cols t))]"
    by (simp add: build_dim_def Let_def)
  then show ?thesis
    by (simp only: length_build_dim_drop map_plus1_upt)
qed

lemma length_build_dim: "length (build_dim cols t) = card (cols ` set t)"
  by (simp add: build_dim_def Let_def length_drop_duplicates)

lemma filter_unique_key:
  "distinct (map fst ds) \<Longrightarrow> (a, b) \<in> set ds \<Longrightarrow> filter (\<lambda>d. fst d = a) ds = [(a, b)]"
proof (induction ds)
  case Nil
  then show ?case by simp
next
  case (Cons d ds)
  show ?case
  proof (cases "fst d = a")
    case True
    with Cons.prems have "d = (a, b)"
      by (cases d) (auto simp add: image_iff)
    moreover from Cons.prems True have "filter (\<lambda>d. fst d = a) ds = []"
      by (auto simp add: filter_empty_conv image_iff)
    ultimately show ?thesis by simp
  next
    case False
    with Cons show ?thesis by auto
  qed
qed

lemma build_dim_match:
  assumes "r \<in> set t"
  shows "\<exists>k. filter (\<lambda>d. fst d = cols r) (build_dim cols t) = [(cols r, k)] \<and> 1 \<le> k \<and> k \<le> length (build_dim cols t)"
proof -
  have "cols r \<in> set (map fst (build_dim cols t))"
    using assms by (simp add: fst_build_dim set_drop_duplicates)
  then obtain k where k: "(cols r, k) \<in> set (build_dim cols t)"
    by auto
  have d: "distinct (map fst (build_dim cols t))"
    by (simp add: fst_build_dim distinct_drop_duplicates)
  have "k \<in> set (map snd (build_dim cols t))"
    using k by force
  then have "k \<in> set [1..<Suc (length (build_dim cols t))]"
    by (simp only: snd_build_dim)
  then have "1 \<le> k \<and> k \<le> length (build_dim cols t)"
    by auto
  with filter_unique_key [OF d k] show ?thesis by blast
qed

lemma concat_map_singleton:
  "(\<And>r. r \<in> set t \<Longrightarrow> f r = [g r]) \<Longrightarrow> concat (map f t) = map g t"
  by (induction t) auto

lemma merge_left_build_dim:
  "merge_left cols t (build_dim cols t) =
     map (\<lambda>r. (r, Some (snd (hd (filter (\<lambda>d. fst d = cols r) (build_dim cols t)))))) t"
  unfolding merge_left_def
proof (rule concat_map_singleton)
  fix r assume "r \<in> set t"
  from build_dim_match [OF this, of cols] obtain k where
    "filter (\<lambda>d. fst d = cols r) (build_dim cols t) = [(cols r, k)]" by blast
  then show "(case filter (\<lambda>d. fst d = cols r) (build_dim cols t) of
         [] \<Rightarrow> [(r, None)]
       | m # ms \<Rightarrow> map (\<lambda>d. (r, Some (snd d))) (m # ms)) =
      [(r, Some (snd (hd (filter (\<lambda>d. fst d = cols r) (build_dim cols t)))))]"
    by simp
qed

lemma length_merge_left_build_dim:
  "length (merge_left cols t (build_dim cols t)) = length t"
  by (simp add: merge_left_build_dim)

lemma map_of_filter_single:
  "filter (\<lambda>d. fst d = a) ds = [(a, b)] \<Longrightarrow> map_of ds a = Some b"
proof (induction ds)
  case Nil
  then show ?case by simp
next
  case (Cons d ds)
  then show ?case
    by (cases d) (auto split: if_splits)
qed

lemma map_of_build_dim:
  assumes "r \<in> set t"
  shows "\<exists>k. map_of (build_dim cols t) (cols r) = Some k \<and>
    filter (\<lambda>d. fst d = cols r) (build_dim cols t) = [(cols r, k)] \<and>
    1 \<le> k \<and> k \<le> length (build_dim cols t)"
proof -
  from build_dim_match [OF assms, of cols] obtain k where
    k: "filter (\<lambda>d. fst d = cols r) (build_dim cols t) = [(cols r, k)]"
      "1 \<le> k" "k \<le> length (build_dim cols t)"
    by blast
  from map_of_filter_single [OF k(1)] k show ?thesis by blast
qed

lemma merge_left_build_dim_map_of:
  "merge_left cols t (build_dim cols t) = map (\<lambda>r. (r, map_of (build_dim cols t) (cols r))) t"
proof -
  have "\<And>r. r \<in> set t \<Longrightarrow>
      Some (snd (hd (filter (\<lambda>d. fst d = cols r) (build_dim cols t)))) =
      map_of (build_dim cols t) (cols r)"
  proof -
    fix r assume "r \<in> set t"
    from map_of_build_dim [OF this, of cols] show
      "Some (snd (hd (filter (\<lambda>d. fst d = cols r) (build_dim cols t)))) =
       map_of (build_dim cols t) (cols r)"
      by auto
  qed
  then show ?thesis
    by (simp add: merge_left_build_dim)
qed

lemma build_dim_map: "build_dim cols (map f t) = build_dim (\<lambda>r. cols (f r)) t"
  by (simp add: build_dim_def comp_def)

lemma join_vehicle_model_eq:
  "join_vehicle_model t (build_dim vehicle_model_cols t) =
     map (\<lambda>r. geo_row.extend r
            (vm_row.fields (map_of (build_dim vehicle_model_cols t) (vehicle_model_cols r)))) t"
  by (simp add: join_vehicle_model_def merge_left_build_dim_map_of)

lemma join_location_eq:
  "join_location t (build_dim location_cols t) =
     map (\<lambda>r. vm_row.extend r
            (loc_row.fields (map_of (build_dim location_cols t) (location_cols r)))) t"
  by (simp add: join_location_def merge_left_build_dim_map_of)

lemma join_policy_eq:
  "join_policy t (build_dim policy_cols t) =
     map (\<lambda>r. loc_row.extend r
            (pol_row.fields (map_of (build_dim policy_cols t) (policy_cols r)))) t"
  by (simp add: join_policy_def merge_left_build_dim_map_of)

lemma join_district_eq:
  "join_district t (build_dim district_cols t) =
     map (\<lambda>r. pol_row.extend r
            (dist_row.fields (map_of (build_dim district_cols t) (district_cols r)))) t"
  by (simp add: join_district_def merge_left_build_dim_map_of)

lemma join_utility_eq:
  "join_utility t (build_dim utility_cols t) =
     map (\<lambda>r. dist_row.extend r
            (util_row.fields (map_of (build_dim utility_cols t) (utility_cols r)))) t"
  by (simp add: join_utility_def merge_left_build_dim_map_of)

text \<open>The defining columns of the later dimensions are untouched by the earlier joins.\<close>

lemma cols_extend [simp]:
  "location_cols (geo_row.extend r (vm_row.fields k)) = location_cols r"
  "policy_cols (geo_row.extend r (vm_row.fields k)) = policy_cols r"
  "district_cols (geo_row.extend r (vm_row.fields k)) = district_cols r"
  "utility_cols (geo_row.extend r (vm_row.fields k)) = utility_cols r"
  "vehicle_model_cols (geo_row.extend r (vm_row.fields k)) = vehicle_model_cols r"
  by (simp_all add: location_cols_def policy_cols_def district_cols_def utility_cols_def
      vehicle_model_cols_def geo_row.defs vm_row.defs)

lemma cols_vm_extend [simp]:
  "location_cols (vm_row.extend r x) = location_cols r"
  "policy_cols (vm_row.extend r x) = policy_cols r"
  "district_cols (vm_row.extend r x) = district_cols r"
  "utility_cols (vm_row.extend r x) = utility_cols r"
  "vehicle_model_cols (vm_row.extend r x) = vehicle_model_cols r"
  by (simp_all add: location_cols_def policy_cols_def district_cols_def utility_cols_def
      vehicle_model_cols_def vm_row.defs)

lemma cols_loc_extend [simp]:
  "location_cols (loc_row.extend r x) = location_cols r"
  "policy_cols (loc_row.extend r x) = policy_cols r"
  "district_cols (loc_row.extend r x) = district_cols r"
  "utility_cols (loc_row.extend r x) = utility_cols r"
  "vehicle_model_cols (loc_row.extend r x) = vehicle_model_cols r"
  by (simp_all add: location_cols_def policy_cols_def district_cols_def utility_cols_def
      vehicle_model_cols_def loc_row.defs)

lemma cols_pol_extend [simp]:
  "location_cols (pol_row.extend r x) = location_cols r"
  "policy_cols (pol_row.extend r x) = policy_cols r"
  "district_cols (pol_row.extend r x) = district_cols r"
  "utility_cols (pol_row.extend r x) = utility_cols r"
  "vehicle_model_cols (pol_row.extend r x) = vehicle_model_cols r"
  by (simp_all add: location_cols_def policy_cols_def district_cols_def utility_cols_def
      vehicle_model_cols_def pol_row.defs)

lemma cols_dist_extend [simp]:
  "location_cols (dist_row.extend r x) = location_cols r"
  "policy_cols (dist_row.extend r x) = policy_cols r"
  "district_cols (dist_row.extend r x) = district_cols r"
  "utility_cols (dist_row.extend r x) = utility_cols r"
  "vehicle_model_cols (dist_row.extend r x) = vehicle_model_cols r"
  by (simp_all add: location_cols_def policy_cols_def district_cols_def utility_cols_def
      vehicle_model_cols_def dist_row.defs)

lemma dimensionalize_eq:
  "dimensionalize t0 =
     \<lparr> Dim_Vehicle_model = build_dim vehicle_model_cols t0,
       Dim_Location = build_dim location_cols t0,
       Dim_Policy_Eligibility = build_dim policy_cols t0,
       Dim_District = build_dim district_cols t0,
       Dim_Utility = build_dim utility_cols t0,
       Fact_EV = build_fact (map (\<lambda>r.
         dist_row.extend (pol_row.extend (loc_row.extend (vm_row.extend (geo_row.extend r
           (vm_row.fields (map_of (build_dim vehicle_model_cols t0) (vehicle_model_cols r))))
           (loc_row.fields (map_of (build_dim location_cols t0) (location_cols r))))
           (pol_row.fields (map_of (build_dim policy_cols t0) (policy_cols r))))
           (dist_row.fields (map_of (build_dim district_cols t0) (district_cols r))))
           (util_row.fields (map_of (build_dim utility_cols t0) (utility_cols r)))) t0),
       joined = map (\<lambda>r.
         dist_row.extend (pol_row.extend (loc_row.extend (vm_row.extend (geo_row.extend r
           (vm_row.fields (map_of (build_dim vehicle_model_cols t0) (vehicle_model_cols r))))
           (loc_row.fields (map_of (build_dim location_cols t0) (location_cols r))))
           (pol_row.fields (map_of (build_dim policy_cols t0) (policy_cols r))))
           (dist_row.fields (map_of (build_dim district_cols t0) (district_cols r))))
           (util_row.fields (map_of (build_dim utility_cols t0) (utility_cols r)))) t0 \<rparr>"
proof -
  define d1 where "d1 = build_dim vehicle_model_cols t0"
  define t1 where "t1 = join_vehicle_model t0 d1"
  define d2 where "d2 = build_dim location_cols t1"
  define t2 where "t2 = join_location t1 d2"
  define d3 where "d3 = build_dim policy_cols t2"
  define t3 where "t3 = join_policy t2 d3"
  define d4 where "d4 = build_dim district_cols t3"
  define t4 where "t4 = join_district t3 d4"
  define d5 where "d5 = build_dim utility_cols t4"
  define t5 where "t5 = join_utility t4 d5"
  have s: "dimensionalize t0 =
      \<lparr> Dim_Vehicle_model = d1, Dim_Location = d2, Dim_Policy_Eligibility = d3,
        Dim_District = d4, Dim_Utility = d5, Fact_EV = build_fact t5, joined = t5 \<rparr>"
    by (simp add: dimensionalize_def Let_def d1_def t1_def d2_def t2_def d3_def t3_def
        d4_def t4_def d5_def t5_def)
  have e1: "t1 = map (\<lambda>r. geo_row.extend r (vm_row.fields (map_of d1 (vehicle_model_cols r)))) t0"
    unfolding t1_def d1_def by (rule join_vehicle_model_eq)
  have c2: "d2 = build_dim location_cols t0"
    unfolding d2_def e1 by (simp add: build_dim_map)
  have e2: "t2 = map (\<lambda>r. vm_row.extend r (loc_row.fields (map_of d2 (location_cols r)))) t1"
    unfolding t2_def d2_def by (rule join_location_eq)
  have c3: "d3 = build_dim policy_cols t0"
    unfolding d3_def e2 e1
    by (simp add: build_dim_map)
  have e3: "t3 = map (\<lambda>r. loc_row.extend r (pol_row.fields (map_of d3 (policy_cols r)))) t2"
    unfolding t3_def d3_def by (rule join_policy_eq)
  have c4: "d4 = build_dim district_cols t0"
    unfolding d4_def e3 e2 e1
    by (simp add: build_dim_map)
  have e4: "t4 = map (\<lambda>r. pol_row.extend r (dist_row.fields (map_of d4 (district_cols r)))) t3"
    unfolding t4_def d4_def by (rule join_district_eq)
  have c5: "d5 = build_dim utility_cols t0"
    unfolding d5_def e4 e3 e2 e1
    by (simp add: build_dim_map)
  have e5: "t5 = map (\<lambda>r. dist_row.extend r (util_row.fields (map_of d5 (utility_cols r)))) t4"
    unfolding t5_def d5_def by (rule join_utility_eq)
  have j: "t5 = map (\<lambda>r.
         dist_row.extend (pol_row.extend (loc_row.extend (vm_row.extend (geo_row.extend r
           (vm_row.fields (map_of d1 (vehicle_model_cols r))))
           (loc_row.fields (map_of d2 (location_cols r))))
           (pol_row.fields (map_of d3 (policy_cols r))))
           (dist_row.fields (map_of d4 (district_cols r))))
           (util_row.fields (map_of d5 (utility_cols r)))) t0"
    unfolding e5 e4 e3 e2 e1
    by simp
  show ?thesis
    unfolding s j c2 c3 c4 c5 d1_def ..
qed

lemma id_vm_extend:
  "vm_row.vehicle_model_id (geo_row.extend r (vm_row.fields k)) = k"
  by (simp add: geo_row.defs vm_row.defs)

lemma id_loc_extend:
  "loc_row.location_id (vm_row.extend r (loc_row.fields k)) = k"
  "vm_row.vehicle_model_id (vm_row.extend r x) = vm_row.vehicle_model_id r"
  by (simp_all add: vm_row.defs loc_row.defs)

lemma id_pol_extend:
  "pol_row.policy_id (loc_row.extend r (pol_row.fields k)) = k"
  "loc_row.location_id (loc_row.extend r x) = loc_row.location_id r"
  "vm_row.vehicle_model_id (loc_row.extend r x) = vm_row.vehicle_model_id r"
  by (simp_all add: loc_row.defs pol_row.defs)

lemma id_dist_extend:
  "dist_row.district_id (pol_row.extend r (dist_row.fields k)) = k"
  "pol_row.policy_id (pol_row.extend r x) = pol_row.policy_id r"
  "loc_row.location_id (pol_row.extend r x) = loc_row.location_id r"
  "vm_row.vehicle_model_id (pol_row.extend r x) = vm_row.vehicle_model_id r"
  by (simp_all add: pol_row.defs dist_row.defs)

lemma id_util_extend:
  "util_row.utility_id (dist_row.extend r (util_row.fields k)) = k"
  "dist_row.district_id (dist_row.extend r x) = dist_row.district_id r"
  "pol_row.policy_id (dist_row.extend r x) = pol_row.policy_id r"
  "loc_row.location_id (dist_row.extend r x) = loc_row.location_id r"
  "vm_row.vehicle_model_id (dist_row.extend r x) = vm_row.vehicle_model_id r"
  by (simp_all add: dist_row.defs util_row.defs)

lemmas id_extend = id_vm_extend id_loc_extend id_pol_extend id_dist_extend id_util_extend

lemma natural_keys_extend:
  "row.vin (geo_row.extend r x) = row.vin r"
  "row.vin (vm_row.extend r1 x) = row.vin r1"
  "row.vin (loc_row.extend r2 x) = row.vin r2"
  "row.vin (pol_row.extend r3 x) = row.vin r3"
  "row.vin (dist_row.extend r4 x) = row.vin r4"
  "row.dol_vehicle_id (geo_row.extend r x) = row.dol_vehicle_id r"
  "row.dol_vehicle_id (vm_row.extend r1 x) = row.dol_vehicle_id r1"
  "row.dol_vehicle_id (loc_row.extend r2 x) = row.dol_vehicle_id r2"
  "row.dol_vehicle_id (pol_row.extend r3 x) = row.dol_vehicle_id r3"
  "row.dol_vehicle_id (dist_row.extend r4 x) = row.dol_vehicle_id r4"
  by (simp_all add: geo_row.defs vm_row.defs loc_row.defs pol_row.defs dist_row.defs)

lemma first_index_Cons:
  "first_index (a # xs) y = (if a = y then 0 else Suc (first_index xs y))"
  by (simp add: first_index_def)

lemma first_index_filter_mono:
  "y \<noteq> x \<Longrightarrow> z \<noteq> x \<Longrightarrow>
   first_index (filter (\<lambda>u. u \<noteq> x) xs) y < first_index (filter (\<lambda>u. u \<noteq> x) xs) z \<Longrightarrow>
   first_index xs y < first_index xs z"
proof (induction xs)
  case Nil
  then show ?case by (simp add: first_index_def)
next
  case (Cons a xs)
  then show ?case
    by (auto simp add: first_index_Cons split: if_splits)
qed

lemma first_index_order: "sorted_wrt (<) (map (first_index xs) (drop_duplicates xs))"
proof (induction xs rule: drop_duplicates.induct)
  case 1
  then show ?case by simp
next
  case (2 x xs)
  let ?f = "filter (\<lambda>y. y \<noteq> x) xs"
  have a: "\<forall>y \<in> set (drop_duplicates ?f). first_index (x # xs) x < first_index (x # xs) y"
    by (auto simp add: first_index_Cons set_drop_duplicates)
  have "sorted_wrt (\<lambda>y z. first_index ?f y < first_index ?f z) (drop_duplicates ?f)"
    using "2.IH" by (simp add: sorted_wrt_map)
  then have "sorted_wrt (\<lambda>y z. first_index (x # xs) y < first_index (x # xs) z)
      (drop_duplicates ?f)"
  proof (rule sorted_wrt_mono_rel [rotated])
    fix y z
    assume y: "y \<in> set (drop_duplicates ?f)" and z: "z \<in> set (drop_duplicates ?f)"
      and lt: "first_index ?f y < first_index ?f z"
    from y z have "y \<noteq> x" "z \<noteq> x"
      by (auto simp add: set_drop_duplicates)
    with lt first_index_filter_mono [of y x z xs]
    show "first_index (x # xs) y < first_index (x # xs) z"
      by (simp add: first_index_Cons)
  qed
  with a show ?case
    by (simp add: sorted_wrt_map)
qed

lemma build_dim_order:
  assumes "i < j" and "j < length (build_dim cols t)"
  shows "first_index (map cols t) (fst (build_dim cols t ! i)) <
    first_index (map cols t) (fst (build_dim cols t ! j))"
proof -
  let ?d = "drop_duplicates (map cols t)"
  have l: "length ?d = length (build_dim cols t)"
    by (simp add: length_build_dim_drop)
  have n: "\<And>k. k < length (build_dim cols t) \<Longrightarrow> fst (build_dim cols t ! k) = ?d ! k"
    using fst_build_dim [of cols t] by (metis nth_map)
  from first_index_order [of "map cols t"] assms l
  have "first_index (map cols t) (?d ! i) < first_index (map cols t) (?d ! j)"
    by (simp add: sorted_wrt_iff_nth_less)
  with n assms show ?thesis by simp
qed

lemma build_dim_is_dimension: "is_dimension_of cols t (build_dim cols t)"
  unfolding is_dimension_of_def
  by (simp add: fst_build_dim distinct_drop_duplicates set_drop_duplicates snd_build_dim
      length_build_dim first_index_order del: upt_Suc)

lemma astype_length: "astype f xs = Inr ys \<Longrightarrow> length ys = length xs"
  by (induction xs arbitrary: ys) (auto split: sum.splits)

lemma normalize_length: "normalize t = Inr n \<Longrightarrow> length n = length t"
  unfolding normalize_def
  by (auto split: sum.splits dest!: astype_length)

lemma zip_map_self: "zip t (map f t) = map (\<lambda>r. (r, f r)) t"
  by (induction t) auto

lemma assign_col_map: "assign_col c (map f t) t = map (\<lambda>r. set_col c (f r) r) t"
  by (simp add: assign_col_def zip_map_self)

lemma length_replace_zero: "length (replace_zero c t) = length t"
  by (simp add: replace_zero_def)

lemma length_fill_missing_col: "length (fill_missing_col c t) = length t"
  by (simp add: fill_missing_col_def Let_def groupby_transform_fill_def assign_col_map)

lemma length_fill_missing: "length (fill_missing t cs) = length t"
  unfolding fill_missing_def
  by (induction cs arbitrary: t) (simp_all add: length_fill_missing_col)

lemma length_impute: "length (impute t) = length t"
  by (simp add: impute_def length_fill_missing length_replace_zero)

lemma transform_length: "transform raw = Inr t \<Longrightarrow> length t = length (filter_state raw)"
  unfolding transform_def
  by (auto split: sum.splits simp add: length_encode length_impute geo_extract_def
      dest: normalize_length)

lemma pipeline_Inr: "pipeline raw = Inr s \<Longrightarrow> \<exists>t. transform raw = Inr t \<and> s = dimensionalize t"
  unfolding pipeline_def by (auto split: sum.splits)

lemma length_build_fact: "length (build_fact t) = length t"
  by (simp add: build_fact_def)

lemma ev_id_build_fact: "map ev_id (build_fact t) = [1..<Suc (length t)]"
proof -
  have "map ev_id (build_fact t) = map ((\<lambda>i. i + 1) \<circ> snd) (zip t [0..<length t])"
    by (simp add: build_fact_def fact_of_def case_prod_unfold comp_def)
  also have "\<dots> = map (\<lambda>i. i + 1) (map snd (zip t [0..<length t]))"
    by (simp only: map_map)
  also have "map snd (zip t [0..<length t]) = [0..<length t]"
    by (rule map_snd_zip) simp
  finally show ?thesis
    by (simp only: map_plus1_upt)
qed

lemma distinct_build_fact: "distinct (build_fact t)"
proof -
  have "distinct (map ev_id (build_fact t))"
    by (simp only: ev_id_build_fact distinct_upt)
  then show ?thesis
    by (rule distinct_map [THEN iffD1, THEN conjunct1])
qed

section \<open>Field Normalizer: success and failure of the casts\<close>

lemma astype_ok:
  "(\<forall>x \<in> set xs. \<not> isl (f x)) \<Longrightarrow> astype f xs = Inr (map (\<lambda>x. projr (f x)) xs)"
proof (induction xs)
  case Nil
  then show ?case by simp
next
  case (Cons x xs)
  then show ?case
    by (cases "f x") auto
qed

lemma astype_fail_kind: "astype f xs = Inl e \<Longrightarrow> \<exists>x \<in> set xs. f x = Inl e"
  by (induction xs) (auto split: sum.splits)

lemma astype_fail: "x \<in> set xs \<Longrightarrow> isl (f x) \<Longrightarrow> isl (astype f xs)"
proof (induction xs)
  case Nil
  then show ?case by simp
next
  case (Cons y ys)
  then show ?case
    by (cases "f y"; cases "astype f ys") auto
qed

lemma zip3_map:
  "zip t (zip (map f t) (zip (map g t) (map h t))) = map (\<lambda>r. (r, f r, g r, h r)) t"
  by (induction t) auto

lemma normalize_ok:
  assumes "\<forall>r \<in> set t. castable r"
  shows "normalize t = Inr (map typed_row t)"
proof -
  have a: "astype cell_to_float (map Electric_Range t) =
      Inr (map (\<lambda>r. projr (cell_to_float (Electric_Range r))) t)"
    using assms astype_ok [of "map Electric_Range t" cell_to_float]
    by (simp add: castable_def comp_def)
  have b: "astype cell_to_float (map Base_MSRP t) =
      Inr (map (\<lambda>r. projr (cell_to_float (Base_MSRP r))) t)"
    using assms astype_ok [of "map Base_MSRP t" cell_to_float]
    by (simp add: castable_def comp_def)
  have c: "astype cell_to_int (map Model_Year t) =
      Inr (map (\<lambda>r. projr (cell_to_int (Model_Year r))) t)"
    using assms astype_ok [of "map Model_Year t" cell_to_int]
    by (simp add: castable_def comp_def)
  show ?thesis
    unfolding normalize_def a b c
    by (simp add: zip3_map typed_row_def comp_def)
qed

lemma normalize_fail:
  assumes "r \<in> set t" and "\<not> castable r"
  shows "isl (normalize t)"
proof -
  from assms(2) consider "isl (cell_to_float (Electric_Range r))"
    | "isl (cell_to_float (Base_MSRP r))" | "isl (cell_to_int (Model_Year r))"
    unfolding castable_def by blast
  then show ?thesis
  proof cases
    case 1
    with assms(1) have "isl (astype cell_to_float (map Electric_Range t))"
      by (intro astype_fail [of "Electric_Range r"]) auto
    then show ?thesis
      unfolding normalize_def by (auto split: sum.splits)
  next
    case 2
    with assms(1) have "isl (astype cell_to_float (map Base_MSRP t))"
      by (intro astype_fail [of "Base_MSRP r"]) auto
    then show ?thesis
      unfolding normalize_def by (auto split: sum.splits)
  next
    case 3
    with assms(1) have "isl (astype cell_to_int (map Model_Year t))"
      by (intro astype_fail [of "Model_Year r"]) auto
    then show ?thesis
      unfolding normalize_def by (auto split: sum.splits)
  qed
qed

lemma transform_ok:
  assumes "\<forall>r \<in> set (filter_state raw). castable r"
  shows "transform raw = Inr (encode (impute (geo_extract (map typed_row (filter_state raw)))))"
  unfolding transform_def by (simp add: normalize_ok [OF assms])

lemma pipeline_ok:
  assumes "\<forall>r \<in> set (filter_state raw). castable r"
  shows "\<exists>s. pipeline raw = Inr s"
  unfolding pipeline_def by (simp add: transform_ok [OF assms])

section \<open>The star schema\<close>

lemma dims_dimensionalize:
  "Dim_Vehicle_model (dimensionalize t) = build_dim vehicle_model_cols t"
  "Dim_Location (dimensionalize t) = build_dim location_cols t"
  "Dim_Policy_Eligibility (dimensionalize t) = build_dim policy_cols t"
  "Dim_District (dimensionalize t) = build_dim district_cols t"
  "Dim_Utility (dimensionalize t) = build_dim utility_cols t"
  by (simp_all add: dimensionalize_eq)

lemma fact_dimensionalize: "Fact_EV (dimensionalize t) = build_fact (joined (dimensionalize t))"
  by (simp add: dimensionalize_eq)

lemma length_joined: "length (joined (dimensionalize t)) = length t"
  by (simp add: dimensionalize_eq)

lemma joined_nth:
  assumes "i < length t"
  shows "vm_row.vehicle_model_id (joined (dimensionalize t) ! i) =
      map_of (build_dim vehicle_model_cols t) (vehicle_model_cols (t ! i))"
    and "loc_row.location_id (joined (dimensionalize t) ! i) =
      map_of (build_dim location_cols t) (location_cols (t ! i))"
    and "pol_row.policy_id (joined (dimensionalize t) ! i) =
      map_of (build_dim policy_cols t) (policy_cols (t ! i))"
    and "dist_row.district_id (joined (dimensionalize t) ! i) =
      map_of (build_dim district_cols t) (district_cols (t ! i))"
    and "util_row.utility_id (joined (dimensionalize t) ! i) =
      map_of (build_dim utility_cols t) (utility_cols (t ! i))"
    and "vehicle_model_cols (joined (dimensionalize t) ! i) = vehicle_model_cols (t ! i)"
    and "location_cols (joined (dimensionalize t) ! i) = location_cols (t ! i)"
    and "policy_cols (joined (dimensionalize t) ! i) = policy_cols (t ! i)"
    and "district_cols (joined (dimensionalize t) ! i) = district_cols (t ! i)"
    and "utility_cols (joined (dimensionalize t) ! i) = utility_cols (t ! i)"
    and "row.vin (joined (dimensionalize t) ! i) = row.vin (t ! i)"
    and "row.dol_vehicle_id (joined (dimensionalize t) ! i) = row.dol_vehicle_id (t ! i)"
  using assms by (simp_all add: dimensionalize_eq id_extend natural_keys_extend)

lemma resolves_build_dim:
  "r \<in> set t \<Longrightarrow> resolves (cols r) (map_of (build_dim cols t) (cols r)) (build_dim cols t)"
  unfolding resolves_def using map_of_build_dim [of r t cols] by auto

text \<open>
  Claim C3.  After the five left joins every row carries five foreign keys, none of them
  missing, and each one is the key of the only row of its dimension that has the row's
  defining columns; a missing cell in a defining column matches the missing cell of the
  dimension row (equality of \<open>option\<close> values).  The fact table copies these keys.
\<close>

theorem join_completeness:
  assumes "pipeline raw = Inr s"
  shows "\<forall>i < length (joined s).
    resolves (vehicle_model_cols (joined s ! i)) (vm_row.vehicle_model_id (joined s ! i))
      (Dim_Vehicle_model s) \<and>
    resolves (location_cols (joined s ! i)) (loc_row.location_id (joined s ! i))
      (Dim_Location s) \<and>
    resolves (policy_cols (joined s ! i)) (pol_row.policy_id (joined s ! i))
      (Dim_Policy_Eligibility s) \<and>
    resolves (district_cols (joined s ! i)) (dist_row.district_id (joined s ! i))
      (Dim_District s) \<and>
    resolves (utility_cols (joined s ! i)) (util_row.utility_id (joined s ! i))
      (Dim_Utility s) \<and>
    fact_row.vehicle_model_id (Fact_EV s ! i) = vm_row.vehicle_model_id (joined s ! i) \<and>
    fact_row.location_id (Fact_EV s ! i) = loc_row.location_id (joined s ! i) \<and>
    fact_row.policy_id (Fact_EV s ! i) = pol_row.policy_id (joined s ! i) \<and>
    fact_row.district_id (Fact_EV s ! i) = dist_row.district_id (joined s ! i) \<and>
    fact_row.utility_id (Fact_EV s ! i) = util_row.utility_id (joined s ! i)"
proof (intro allI impI)
  fix i assume i: "i < length (joined s)"
  from pipeline_Inr [OF assms] obtain t where s: "s = dimensionalize t"
    by blast
  from i have it: "i < length t"
    by (simp add: s length_joined)
  then have m: "t ! i \<in> set t"
    by simp
  have f: "Fact_EV s ! i = fact_of (joined s ! i) i"
    using i by (simp add: s fact_dimensionalize build_fact_def)
  show "resolves (vehicle_model_cols (joined s ! i)) (vm_row.vehicle_model_id (joined s ! i))
      (Dim_Vehicle_model s) \<and>
    resolves (location_cols (joined s ! i)) (loc_row.location_id (joined s ! i))
      (Dim_Location s) \<and>
    resolves (policy_cols (joined s ! i)) (pol_row.policy_id (joined s ! i))
      (Dim_Policy_Eligibility s) \<and>
    resolves (district_cols (joined s ! i)) (dist_row.district_id (joined s ! i))
      (Dim_District s) \<and>
    resolves (utility_cols (joined s ! i)) (util_row.utility_id (joined s ! i))
      (Dim_Utility s) \<and>
    fact_row.vehicle_model_id (Fact_EV s ! i) = vm_row.vehicle_model_id (joined s ! i) \<and>
    fact_row.location_id (Fact_EV s ! i) = loc_row.location_id (joined s ! i) \<and>
    fact_row.policy_id (Fact_EV s ! i) = pol_row.policy_id (joined s ! i) \<and>
    fact_row.district_id (Fact_EV s ! i) = dist_row.district_id (joined s ! i) \<and>
    fact_row.utility_id (Fact_EV s ! i) = util_row.utility_id (joined s ! i)"
    unfolding f
    by (simp add: s joined_nth [OF it] dims_dimensionalize resolves_build_dim [OF m]
        fact_of_def)
qed

text \<open>
  Claim C2.  When the script reaches the load stage, each of the five dimension tables is
  a dimension table of the transformed table in the sense of \<open>is_dimension_of\<close>: no two
  of its rows agree on all defining columns, its keys are \<open>1\<close> to \<open>N\<close> without gap or
  repetition, \<open>N\<close> being the number of distinct combinations, and the keys follow the
  first occurrences.  The fact table has one row per transformed row, with the keys
  \<open>1\<close> to the number of rows, so no two fact rows are equal.
\<close>

theorem dimension_keys:
  assumes "pipeline raw = Inr s"
  shows "\<exists>t. transform raw = Inr t \<and>
    is_dimension_of vehicle_model_cols t (Dim_Vehicle_model s) \<and>
    is_dimension_of location_cols t (Dim_Location s) \<and>
    is_dimension_of policy_cols t (Dim_Policy_Eligibility s) \<and>
    is_dimension_of district_cols t (Dim_District s) \<and>
    is_dimension_of utility_cols t (Dim_Utility s) \<and>
    length (Fact_EV s) = length t \<and>
    map ev_id (Fact_EV s) = [1..<Suc (length (Fact_EV s))] \<and>
    distinct (Fact_EV s)"
proof -
  from pipeline_Inr [OF assms] obtain t where t: "transform raw = Inr t" "s = dimensionalize t"
    by blast
  have "length (Fact_EV s) = length t"
    by (simp add: t(2) fact_dimensionalize length_build_fact length_joined)
  moreover have "map ev_id (Fact_EV s) = [1..<Suc (length (Fact_EV s))]"
    by (simp only: t(2) fact_dimensionalize ev_id_build_fact length_build_fact)
  moreover have "distinct (Fact_EV s)"
    by (simp only: t(2) fact_dimensionalize distinct_build_fact)
  ultimately show ?thesis
    using t(1) by (simp add: t(2) dims_dimensionalize build_dim_is_dimension del: upt_Suc)
qed

lemma length_join:
  "length (join_vehicle_model t1 (build_dim vehicle_model_cols t1)) = length t1"
  "length (join_location t2 (build_dim location_cols t2)) = length t2"
  "length (join_policy t3 (build_dim policy_cols t3)) = length t3"
  "length (join_district t4 (build_dim district_cols t4)) = length t4"
  "length (join_utility t5 (build_dim utility_cols t5)) = length t5"
  by (simp_all add: join_vehicle_model_eq join_location_eq join_policy_eq join_district_eq
      join_utility_eq)

text \<open>
  Claim C4.  Each of the five joins of a table with the dimension built from it returns
  as many rows as the table has, and the joined table and the fact table have as many
  rows as the input has rows of the jurisdiction.
\<close>

theorem row_count_preservation:
  "(\<forall>t. length (join_vehicle_model t (build_dim vehicle_model_cols t)) = length t) \<and>
   (\<forall>t. length (join_location t (build_dim location_cols t)) = length t) \<and>
   (\<forall>t. length (join_policy t (build_dim policy_cols t)) = length t) \<and>
   (\<forall>t. length (join_district t (build_dim district_cols t)) = length t) \<and>
   (\<forall>t. length (join_utility t (build_dim utility_cols t)) = length t) \<and>
   (\<forall>s. pipeline raw = Inr s \<longrightarrow>
      length (joined s) = length (filter_state raw) \<and>
      length (Fact_EV s) = length (filter_state raw))"
proof -
  have "length (joined s) = length (filter_state raw) \<and>
      length (Fact_EV s) = length (filter_state raw)" if "pipeline raw = Inr s" for s
  proof -
    from pipeline_Inr [OF that] obtain t where t: "transform raw = Inr t" "s = dimensionalize t"
      by blast
    from transform_length [OF t(1)] show ?thesis
      by (simp add: t(2) fact_dimensionalize length_build_fact length_joined)
  qed
  then show ?thesis
    by (simp add: length_join)
qed

section \<open>Imputer: the columns it leaves alone and the values it keeps\<close>

lemma same_other_columns_refl: "same_other_columns r r"
  by (simp add: same_other_columns_def)

lemma same_other_columns_set_col: "same_other_columns r (set_col c v r)"
  by (cases c) (simp_all add: same_other_columns_def)

lemma same_other_columns_trans:
  assumes "same_other_columns a b" and "same_other_columns b c"
  shows "same_other_columns a c"
proof -
  from assms(2) have e:
    "c\<lparr>base_msrp := base_msrp b, electric_range := electric_range b\<rparr> = b"
    by (simp add: same_other_columns_def)
  have "c\<lparr>base_msrp := base_msrp a, electric_range := electric_range a\<rparr> =
      (c\<lparr>base_msrp := base_msrp b, electric_range := electric_range b\<rparr>)
        \<lparr>base_msrp := base_msrp a, electric_range := electric_range a\<rparr>"
    by simp
  also have "\<dots> = b\<lparr>base_msrp := base_msrp a, electric_range := electric_range a\<rparr>"
    by (simp only: e)
  also have "\<dots> = a"
    using assms(1) by (simp add: same_other_columns_def)
  finally show ?thesis
    by (simp add: same_other_columns_def)
qed

lemma list_all2_same_refl: "list_all2 same_other_columns t t"
  by (simp add: list_all2_refl same_other_columns_refl)

lemma list_all2_same_trans:
  "list_all2 same_other_columns t u \<Longrightarrow> list_all2 same_other_columns u w \<Longrightarrow>
   list_all2 same_other_columns t w"
  by (rule list_all2_trans [of same_other_columns same_other_columns same_other_columns])
    (auto intro: same_other_columns_trans)

lemma list_all2_same_map:
  "list_all2 same_other_columns t (map (\<lambda>r. set_col c (f r) r) t)"
  by (simp add: list_all2_map2 list_all2_refl same_other_columns_set_col)

lemma frame_replace_zero: "list_all2 same_other_columns t (replace_zero c t)"
  unfolding replace_zero_def by (rule list_all2_same_map)

lemma frame_fill_missing_col: "list_all2 same_other_columns t (fill_missing_col c t)"
proof -
  let ?t1 = "assign_col c (groupby_transform_fill make_model_key (get_col c) t) t"
  let ?t2 = "assign_col c (groupby_transform_fill make' (get_col c) ?t1) ?t1"
  let ?t3 = "assign_col c (map (fillna (median (map (get_col c) ?t2))) (map (get_col c) ?t2)) ?t2"
  have 1: "list_all2 same_other_columns t ?t1"
    unfolding groupby_transform_fill_def assign_col_map by (rule list_all2_same_map)
  have 2: "list_all2 same_other_columns ?t1 ?t2"
    unfolding groupby_transform_fill_def [of make'] assign_col_map by (rule list_all2_same_map)
  have 3: "list_all2 same_other_columns ?t2 ?t3"
    unfolding map_map assign_col_map by (rule list_all2_same_map)
  have "fill_missing_col c t = ?t3"
    by (simp add: fill_missing_col_def Let_def)
  with list_all2_same_trans [OF list_all2_same_trans [OF 1 2] 3] show ?thesis
    by simp
qed

lemma impute_steps:
  "impute t =
     fill_missing_col Col_electric_range (fill_missing_col Col_base_msrp
       (replace_zero Col_base_msrp (replace_zero Col_electric_range t)))"
  by (simp add: impute_def fill_missing_def)

lemma frame_impute: "list_all2 same_other_columns t (impute t)"
proof -
  let ?a = "replace_zero Col_electric_range t"
  let ?b = "replace_zero Col_base_msrp ?a"
  let ?c = "fill_missing_col Col_base_msrp ?b"
  have "list_all2 same_other_columns t ?b"
    by (rule list_all2_same_trans [OF frame_replace_zero frame_replace_zero])
  then have "list_all2 same_other_columns t ?c"
    by (rule list_all2_same_trans [OF _ frame_fill_missing_col])
  then have "list_all2 same_other_columns t (fill_missing_col Col_electric_range ?c)"
    by (rule list_all2_same_trans [OF _ frame_fill_missing_col])
  then show ?thesis
    by (simp only: impute_steps)
qed

lemma get_set_col: "get_col c' (set_col c v r) = (if c' = c then v else get_col c' r)"
  by (cases c; cases c'; simp)

lemma make_set_col [simp]: "make' (set_col c v r) = make' r"
  by (cases c) simp_all

lemma model_set_col [simp]: "model (set_col c v r) = model r"
  by (cases c) simp_all

lemma make_model_key_set_col [simp]: "make_model_key (set_col c v r) = make_model_key r"
  by (simp add: make_model_key_def split: option.splits)

lemma fillna_Some [simp]: "fillna m (Some v) = Some v"
  by (simp add: fillna_def)

lemma fillna_None [simp]: "fillna m None = m"
  by (simp add: fillna_def)

lemma group_step_nth:
  assumes "i < length t"
  shows "assign_col c (groupby_transform_fill key (get_col c) t) t ! i =
    set_col c (case key (t ! i) of
                 None \<Rightarrow> None
               | Some k \<Rightarrow> fillna (median (map (get_col c) (filter (\<lambda>r'. key r' = Some k) t)))
                            (get_col c (t ! i))) (t ! i)"
  using assms by (simp add: groupby_transform_fill_def assign_col_map)

lemma group_step_keep:
  assumes "i < length t" and "key (t ! i) = Some k" and "get_col c (t ! i) = Some v"
  shows "get_col c (assign_col c (groupby_transform_fill key (get_col c) t) t ! i) = Some v"
  using assms by (simp add: group_step_nth get_set_col)

lemma group_step_null_key:
  assumes "i < length t" and "key (t ! i) = None"
  shows "get_col c (assign_col c (groupby_transform_fill key (get_col c) t) t ! i) = None"
  using assms by (simp add: group_step_nth get_set_col)

lemma group_step_keys:
  assumes "i < length t"
  shows "make' (assign_col c (groupby_transform_fill key (get_col c) t) t ! i) = make' (t ! i)"
    and "model (assign_col c (groupby_transform_fill key (get_col c) t) t ! i) = model (t ! i)"
  using assms by (simp_all add: group_step_nth)

lemma length_group_step:
  "length (assign_col c (groupby_transform_fill key (get_col c) t) t) = length t"
  by (simp add: groupby_transform_fill_def assign_col_map)

lemma global_step_nth:
  assumes "i < length t"
  shows "assign_col c (map (fillna m) (map (get_col c) t)) t ! i =
    set_col c (fillna m (get_col c (t ! i))) (t ! i)"
  using assms by (simp add: assign_col_map)

lemma fill_missing_col_keep:
  assumes i: "i < length t" and mk: "make' (t ! i) = Some a" and md: "model (t ! i) = Some b"
    and v: "get_col c (t ! i) = Some v"
  shows "get_col c (fill_missing_col c t ! i) = Some v"
proof -
  let ?t1 = "assign_col c (groupby_transform_fill make_model_key (get_col c) t) t"
  let ?t2 = "assign_col c (groupby_transform_fill make' (get_col c) ?t1) ?t1"
  have k: "make_model_key (t ! i) = Some (a, b)"
    by (simp add: make_model_key_def mk md)
  have v1: "get_col c (?t1 ! i) = Some v"
    by (rule group_step_keep [where key = make_model_key, OF i k v])
  have i1: "i < length ?t1"
    by (simp add: length_group_step i)
  have m1: "make' (?t1 ! i) = Some a"
    by (simp add: group_step_keys [OF i] mk)
  have v2: "get_col c (?t2 ! i) = Some v"
    by (rule group_step_keep [where key = "make'", OF i1 m1 v1])
  have i2: "i < length ?t2"
    by (simp add: length_group_step i)
  have "fill_missing_col c t ! i =
      set_col c (fillna (median (map (get_col c) ?t2)) (get_col c (?t2 ! i))) (?t2 ! i)"
    unfolding fill_missing_col_def Let_def by (rule global_step_nth [OF i2])
  then show ?thesis
    by (simp add: v2 get_set_col)
qed

lemma fill_missing_col_other:
  assumes "i < length t" and "c' \<noteq> c"
  shows "get_col c' (fill_missing_col c t ! i) = get_col c' (t ! i)"
proof -
  let ?t1 = "assign_col c (groupby_transform_fill make_model_key (get_col c) t) t"
  let ?t2 = "assign_col c (groupby_transform_fill make' (get_col c) ?t1) ?t1"
  have i1: "i < length ?t1" by (simp add: length_group_step assms(1))
  have i2: "i < length ?t2" by (simp add: length_group_step assms(1))
  have "fill_missing_col c t ! i =
      set_col c (fillna (median (map (get_col c) ?t2)) (get_col c (?t2 ! i))) (?t2 ! i)"
    unfolding fill_missing_col_def Let_def by (rule global_step_nth [OF i2])
  then have "get_col c' (fill_missing_col c t ! i) = get_col c' (?t2 ! i)"
    using assms(2) by (simp add: get_set_col)
  also have "\<dots> = get_col c' (?t1 ! i)"
    using assms(2) by (simp add: group_step_nth [OF i1] get_set_col)
  also have "\<dots> = get_col c' (t ! i)"
    using assms(2) by (simp add: group_step_nth [OF assms(1)] get_set_col)
  finally show ?thesis .
qed

lemma fill_missing_col_keys:
  assumes "i < length t"
  shows "make' (fill_missing_col c t ! i) = make' (t ! i)"
    and "model (fill_missing_col c t ! i) = model (t ! i)"
proof -
  let ?t1 = "assign_col c (groupby_transform_fill make_model_key (get_col c) t) t"
  let ?t2 = "assign_col c (groupby_transform_fill make' (get_col c) ?t1) ?t1"
  have i1: "i < length ?t1" by (simp add: length_group_step assms)
  have i2: "i < length ?t2" by (simp add: length_group_step assms)
  have e: "fill_missing_col c t ! i =
      set_col c (fillna (median (map (get_col c) ?t2)) (get_col c (?t2 ! i))) (?t2 ! i)"
    unfolding fill_missing_col_def Let_def by (rule global_step_nth [OF i2])
  show "make' (fill_missing_col c t ! i) = make' (t ! i)"
    unfolding e by (simp add: group_step_keys [OF i1] group_step_keys [OF assms])
  show "model (fill_missing_col c t ! i) = model (t ! i)"
    unfolding e by (simp add: group_step_keys [OF i1] group_step_keys [OF assms])
qed

section \<open>The star schema of the sample input\<close>

lemmas parse_defs = cell_to_float_def cell_to_int_def to_float_def to_int_def strip_def
  is_space_def parse_sign_def lower_def parse_decimal_def is_digit_def parse_exponent_def
  scale10_def digits_to_nat_def digit_val_def

lemma filter_state_samples: "filter_state samples = [sample_raw, sample_raw2, sample_raw3]"
  by (simp add: filter_state_def samples_def sample_raw_def sample_raw2_def sample_raw3_def
      sample_raw_or_def)

lemma cells_samples:
  "cell_to_float (Some ''150'') = Inr (Some (Fin 150))"
  "cell_to_float (Some ''75'') = Inr (Some (Fin 75))"
  "cell_to_float (Some ''0'') = Inr (Some (Fin 0))"
  "cell_to_float (Some ''45000'') = Inr (Some (Fin 45000))"
  "cell_to_float None = Inr None"
  "cell_to_int (Some ''2020'') = Inr 2020"
  "cell_to_int (Some ''2013'') = Inr 2013"
  by (simp_all add: parse_defs)

lemma castable_samples: "\<forall>r \<in> set (filter_state samples). castable r"
  by (simp add: filter_state_samples castable_def sample_raw_def sample_raw2_def
      sample_raw3_def cells_samples)

lemma pipeline_samples: "\<exists>s. pipeline samples = Inr s"
  by (rule pipeline_ok [OF castable_samples])

theorem dimension_keys_witness:
  "\<exists>s t. pipeline samples = Inr s \<and> transform samples = Inr t \<and>
    is_dimension_of vehicle_model_cols t (Dim_Vehicle_model s) \<and>
    is_dimension_of location_cols t (Dim_Location s) \<and>
    is_dimension_of policy_cols t (Dim_Policy_Eligibility s) \<and>
    is_dimension_of district_cols t (Dim_District s) \<and>
    is_dimension_of utility_cols t (Dim_Utility s) \<and>
    length (Fact_EV s) = 3 \<and>
    map ev_id (Fact_EV s) = [1, 2, 3] \<and>
    distinct (Fact_EV s)"
proof -
  from pipeline_samples obtain s where s: "pipeline samples = Inr s" ..
  from dimension_keys [OF s] obtain t where t: "transform samples = Inr t"
    "is_dimension_of vehicle_model_cols t (Dim_Vehicle_model s)"
    "is_dimension_of location_cols t (Dim_Location s)"
    "is_dimension_of policy_cols t (Dim_Policy_Eligibility s)"
    "is_dimension_of district_cols t (Dim_District s)"
    "is_dimension_of utility_cols t (Dim_Utility s)"
    "length (Fact_EV s) = length t"
    "map ev_id (Fact_EV s) = [1..<Suc (length (Fact_EV s))]"
    "distinct (Fact_EV s)"
    by blast
  from transform_length [OF t(1)] have l: "length t = 3"
    by (simp add: filter_state_samples)
  have u: "[1..<Suc 3] = [1, 2, 3]"
    by (simp add: upt_rec)
  have lf: "length (Fact_EV s) = 3"
    by (simp only: t(7) l)
  have "map ev_id (Fact_EV s) = [1, 2, 3]"
    using t(8) by (simp only: lf u)
  with s t(1-6) t(9) lf show ?thesis
    by (intro exI [of _ s] exI [of _ t]) simp
qed

theorem row_count_preservation_witness:
  "length (filter_state samples) = 3 \<and>
   (\<exists>s. pipeline samples = Inr s \<and> length (joined s) = 3 \<and> length (Fact_EV s) = 3)"
proof -
  from pipeline_samples obtain s where s: "pipeline samples = Inr s" ..
  have l: "length (filter_state samples) = 3"
    by (simp add: filter_state_samples)
  from row_count_preservation [of samples, THEN conjunct2, THEN conjunct2, THEN conjunct2,
      THEN conjunct2, THEN conjunct2, rule_format, OF s]
  have "length (joined s) = 3 \<and> length (Fact_EV s) = 3"
    by (simp only: l)
  with s l show ?thesis
    by blast
qed

theorem join_completeness_witness:
  "\<exists>s. pipeline samples = Inr s \<and> length (joined s) = 3 \<and>
    resolves (vehicle_model_cols (joined s ! 0)) (vm_row.vehicle_model_id (joined s ! 0))
      (Dim_Vehicle_model s) \<and>
    resolves (location_cols (joined s ! 2)) (loc_row.location_id (joined s ! 2))
      (Dim_Location s) \<and>
    resolves (policy_cols (joined s ! 1)) (pol_row.policy_id (joined s ! 1))
      (Dim_Policy_Eligibility s) \<and>
    resolves (district_cols (joined s ! 2)) (dist_row.district_id (joined s ! 2))
      (Dim_District s) \<and>
    resolves (utility_cols (joined s ! 0)) (util_row.utility_id (joined s ! 0))
      (Dim_Utility s) \<and>
    fact_row.utility_id (Fact_EV s ! 0) = util_row.utility_id (joined s ! 0)"
proof -
  from pipeline_samples obtain s where s: "pipeline samples = Inr s" ..
  from pipeline_Inr [OF s] obtain t where t: "transform samples = Inr t" "s = dimensionalize t"
    by blast
  have l: "length (joined s) = 3"
    unfolding t(2) length_joined using transform_length [OF t(1)]
    by (simp add: filter_state_samples)
  note h = join_completeness [OF s, rule_format]
  have 0: "0 < length (joined s)" and 1: "1 < length (joined s)" and 2: "2 < length (joined s)"
    by (simp_all add: l)
  from h [OF 0] h [OF 1] h [OF 2] l s show ?thesis
    by blast
qed

section \<open>Field Normalizer: a cell that is not a number\<close>

lemma to_float_error: "to_float s = Inl e \<Longrightarrow> e = ValueError"
  unfolding to_float_def by (auto split: option.splits prod.splits if_splits)

lemma cell_to_float_error: "cell_to_float c = Inl e \<Longrightarrow> e = ValueError"
  unfolding cell_to_float_def by (auto split: option.splits dest: to_float_error)

lemma normalize_error_kind:
  assumes "normalize t = Inl e"
  shows "e = ValueError \<or> (\<exists>r \<in> set t. cell_to_int (Model_Year r) = Inl e)"
proof (cases "astype cell_to_float (map Electric_Range t)")
  case (Inl e1)
  with assms have "e1 = e"
    by (simp add: normalize_def)
  with Inl astype_fail_kind [of cell_to_float "map Electric_Range t" e] show ?thesis
    by (auto dest: cell_to_float_error)
next
  case er: (Inr ers)
  show ?thesis
  proof (cases "astype cell_to_float (map Base_MSRP t)")
    case (Inl e1)
    with assms er have "e1 = e"
      by (simp add: normalize_def)
    with Inl astype_fail_kind [of cell_to_float "map Base_MSRP t" e] show ?thesis
      by (auto dest: cell_to_float_error)
  next
    case bm: (Inr bms)
    show ?thesis
    proof (cases "astype cell_to_int (map Model_Year t)")
      case (Inl e1)
      with assms er bm have "e1 = e"
        by (simp add: normalize_def)
      with Inl astype_fail_kind [of cell_to_int "map Model_Year t" e] show ?thesis
        by auto
    next
      case (Inr mys)
      with assms er bm show ?thesis
        by (simp add: normalize_def)
    qed
  qed
qed

lemma non_numeric_not_castable: "non_numeric r \<Longrightarrow> \<not> castable r"
  unfolding non_numeric_def castable_def by auto

lemma pipeline_normalize_Inl: "normalize (filter_state raw) = Inl e \<Longrightarrow> pipeline raw = Inl e"
  by (simp add: pipeline_def transform_def)

text \<open>
  Claim C8.  If a row of the jurisdiction has a non-numeric range, price or year, the
  Field Normalizer raises and the script ends with that exception: no row is skipped
  and no table is produced.  The exception is \<^verbatim>\<open>ValueError\<close>, Python's error for a
  literal that cannot be parsed, unless the cast of a year outside the 64-bit range
  raises \<^verbatim>\<open>OverflowError\<close> first.
\<close>

theorem normalizer_failure:
  assumes "r \<in> set (filter_state raw)" and "non_numeric r"
  shows "(\<exists>e. normalize (filter_state raw) = Inl e \<and> pipeline raw = Inl e) \<and>
    ((\<forall>r' \<in> set (filter_state raw). cell_to_int (Model_Year r') \<noteq> Inl OverflowError) \<longrightarrow>
       pipeline raw = Inl ValueError)"
proof -
  from normalize_fail [OF assms(1) non_numeric_not_castable [OF assms(2)]]
  obtain e where e: "normalize (filter_state raw) = Inl e"
    by (cases "normalize (filter_state raw)") auto
  then have p: "pipeline raw = Inl e"
    by (rule pipeline_normalize_Inl)
  have "e = ValueError"
    if h: "\<forall>r' \<in> set (filter_state raw). cell_to_int (Model_Year r') \<noteq> Inl OverflowError"
  proof (cases e)
    case ValueError
    then show ?thesis .
  next
    case OverflowError
    with normalize_error_kind [OF e] h show ?thesis
      by auto
  qed
  with e p show ?thesis
    by auto
qed

lemma bad_cells:
  "cell_to_float (Some ''n/a'') = Inl ValueError"
  "cell_to_int (Some ''2020.5'') = Inl ValueError"
  by (simp_all add: parse_defs)

theorem normalizer_failure_witness:
  "pipeline [sample_raw, sample_raw_or, sample_bad_range] = Inl ValueError \<and>
   pipeline [sample_bad_year, sample_raw] = Inl ValueError"
proof -
  have f1: "filter_state [sample_raw, sample_raw_or, sample_bad_range] =
      [sample_raw, sample_bad_range]"
    by (simp add: filter_state_def sample_raw_def sample_raw2_def sample_raw_or_def
        sample_bad_range_def)
  have f2: "filter_state [sample_bad_year, sample_raw] = [sample_bad_year, sample_raw]"
    by (simp add: filter_state_def sample_raw_def sample_raw2_def sample_bad_year_def)
  have n1: "non_numeric sample_bad_range"
    by (simp add: non_numeric_def sample_bad_range_def bad_cells)
  have n2: "non_numeric sample_bad_year"
    by (simp add: non_numeric_def sample_bad_year_def bad_cells)
  have y: "cell_to_int (Model_Year sample_raw) = Inr 2020"
      "cell_to_int (Model_Year sample_bad_range) = Inr 2020"
    by (simp_all add: sample_raw_def sample_raw2_def sample_bad_range_def cells_samples)
  have y2: "cell_to_int (Model_Year sample_bad_year) = Inl ValueError"
    by (simp add: sample_bad_year_def bad_cells)
  have "pipeline [sample_raw, sample_raw_or, sample_bad_range] = Inl ValueError"
    using normalizer_failure [of sample_bad_range "[sample_raw, sample_raw_or, sample_bad_range]",
        THEN conjunct2] n1
    by (simp add: f1 y)
  moreover have "pipeline [sample_bad_year, sample_raw] = Inl ValueError"
    using normalizer_failure [of sample_bad_year "[sample_bad_year, sample_raw]",
        THEN conjunct2] n2
    by (simp add: f2 y y2)
  ultimately show ?thesis ..
qed

section \<open>The columns of a row through the stages\<close>

lemma group_step_fill:
  assumes "i < length t" and "key (t ! i) = Some k" and "get_col c (t ! i) = None"
  shows "get_col c (assign_col c (groupby_transform_fill key (get_col c) t) t ! i) =
    median (map (get_col c) (filter (\<lambda>r'. key r' = Some k) t))"
  using assms by (simp add: group_step_nth get_set_col)

lemma fill_missing_col_fill_group:
  assumes i: "i < length t" and mk: "make' (t ! i) = Some a" and md: "model (t ! i) = Some b"
    and v: "get_col c (t ! i) = None"
    and m: "median (map (get_col c) (filter (\<lambda>r'. make_model_key r' = Some (a, b)) t)) = Some m"
  shows "get_col c (fill_missing_col c t ! i) = Some m"
proof -
  let ?t1 = "assign_col c (groupby_transform_fill make_model_key (get_col c) t) t"
  let ?t2 = "assign_col c (groupby_transform_fill make' (get_col c) ?t1) ?t1"
  have k: "make_model_key (t ! i) = Some (a, b)"
    by (simp add: make_model_key_def mk md)
  have v1: "get_col c (?t1 ! i) = Some m"
    using group_step_fill [where key = make_model_key, OF i k v] m by simp
  have i1: "i < length ?t1"
    by (simp add: length_group_step i)
  have m1: "make' (?t1 ! i) = Some a"
    by (simp add: group_step_keys [OF i] mk)
  have v2: "get_col c (?t2 ! i) = Some m"
    by (rule group_step_keep [where key = "make'", OF i1 m1 v1])
  have i2: "i < length ?t2"
    by (simp add: length_group_step i)
  have "fill_missing_col c t ! i =
      set_col c (fillna (median (map (get_col c) ?t2)) (get_col c (?t2 ! i))) (?t2 ! i)"
    unfolding fill_missing_col_def Let_def by (rule global_step_nth [OF i2])
  then show ?thesis
    by (simp add: v2 get_set_col)
qed

lemma same_other_columns_fields:
  assumes "same_other_columns r r'"
  shows "ev_type r' = ev_type r" and "cafv_eligibility r' = cafv_eligibility r"
    and "make' r' = make' r" and "model r' = model r"
    and "electric_utility r' = electric_utility r" and "row.more r' = row.more r"
proof -
  from assms have e: "r = r'\<lparr>base_msrp := base_msrp r, electric_range := electric_range r\<rparr>"
    by (simp add: same_other_columns_def)
  show "ev_type r' = ev_type r" by (subst e) simp
  show "cafv_eligibility r' = cafv_eligibility r" by (subst e) simp
  show "make' r' = make' r" by (subst e) simp
  show "model r' = model r" by (subst e) simp
  show "electric_utility r' = electric_utility r" by (subst e) simp
  show "row.more r' = row.more r" by (subst e) simp
qed

lemma same_other_columns_geo:
  fixes r r' :: "'a geo_row_scheme"
  assumes "same_other_columns r r'"
  shows "latitude r' = latitude r" and "longitude r' = longitude r"
proof -
  from assms have e: "r = r'\<lparr>base_msrp := base_msrp r, electric_range := electric_range r\<rparr>"
    by (simp add: same_other_columns_def)
  show "latitude r' = latitude r" by (subst e) simp
  show "longitude r' = longitude r" by (subst e) simp
qed

lemma impute_nth_fields:
  assumes "i < length t"
  shows "ev_type (impute t ! i) = ev_type (t ! i)"
    and "cafv_eligibility (impute t ! i) = cafv_eligibility (t ! i)"
    and "make' (impute t ! i) = make' (t ! i)"
    and "model (impute t ! i) = model (t ! i)"
    and "electric_utility (impute t ! i) = electric_utility (t ! i)"
  using frame_impute [of t] assms
  by (simp_all add: list_all2_conv_all_nth same_other_columns_fields)

lemma impute_nth_geo:
  fixes t :: "'a geo_row_scheme list"
  assumes "i < length t"
  shows "latitude (impute t ! i) = latitude (t ! i)"
    and "longitude (impute t ! i) = longitude (t ! i)"
  using frame_impute [of t] assms
  by (simp_all add: list_all2_conv_all_nth same_other_columns_geo)

lemma encode_row_fields:
  "base_msrp (encode_row r) = base_msrp r" "electric_range (encode_row r) = electric_range r"
  "ev_type (encode_row r) = replace_dict ev_type_codes (ev_type r)"
  "cafv_eligibility (encode_row r) = replace_dict cafv_codes (cafv_eligibility r)"
  by (simp_all add: encode_row_def)

lemma encode_row_geo:
  "latitude (encode_row r) = latitude r" "longitude (encode_row r) = longitude r"
  by (simp_all add: encode_row_def)

lemma geo_extract_row_fields:
  "make' (geo_extract_row r) = make' r" "model (geo_extract_row r) = model r"
  "base_msrp (geo_extract_row r) = base_msrp r"
  "electric_range (geo_extract_row r) = electric_range r"
  "ev_type (geo_extract_row r) = ev_type r"
  by (simp_all add: geo_extract_row_def Let_def row.defs geo_row.defs)

lemma typed_row_fields:
  "make' (typed_row r) = Make r" "model (typed_row r) = Model r"
  "base_msrp (typed_row r) = projr (cell_to_float (Base_MSRP r))"
  "electric_range (typed_row r) = projr (cell_to_float (Electric_Range r))"
  "ev_type (typed_row r) = Electric_Vehicle_Type r"
  "vehicle_location (typed_row r) = Vehicle_Location r"
  by (simp_all add: typed_row_def rename_def)

lemma replace_zero_nth:
  assumes "i < length t"
  shows "replace_zero c t ! i =
    set_col c (if get_col c (t ! i) = Some (Fin 0) then None else get_col c (t ! i)) (t ! i)"
  using assms by (simp add: replace_zero_def)

end
